theory Spec2Isabelle
  imports Complex_Main "HOL-Library.Sublist"
begin

section \<open>Numbers, vectors and Python values\<close>

text \<open>
  The script \<^verbatim>\<open>make_dimer_from_monomers.py\<close> is a double loop over two directory
  listings; every iteration calls \<^verbatim>\<open>make_dimer_xyz\<close> twice. All geometry is done by
  calls into the molecular-structure library (ASE) and numpy. Coordinates, masses,
  distances and angles are modelled in exact arithmetic, as real numbers: rounding is
  outside the model. The one floating-point effect that is kept is that a quotient by
  zero is not a number: where numpy computes \<open>x / 0\<close> the model has no point
  (\<open>None\<close>), instead of the value \<open>0\<close> that division by zero has in HOL.
\<close>

type_synonym vec = "real \<times> real \<times> real"

fun vadd :: "vec \<Rightarrow> vec \<Rightarrow> vec" where
  "vadd (a, b, c) (x, y, z) = (a + x, b + y, c + z)"

fun vneg :: "vec \<Rightarrow> vec" where
  "vneg (a, b, c) = (- a, - b, - c)"

fun smul :: "real \<Rightarrow> vec \<Rightarrow> vec" where
  "smul k (x, y, z) = (k * x, k * y, k * z)"

fun vdiv :: "vec \<Rightarrow> real \<Rightarrow> vec" where
  "vdiv (x, y, z) k = (x / k, y / k, z / k)"

fun dot :: "vec \<Rightarrow> vec \<Rightarrow> real" where
  "dot (a, b, c) (x, y, z) = a * x + b * y + c * z"

fun cross :: "vec \<Rightarrow> vec \<Rightarrow> vec" where
  "cross (a, b, c) (x, y, z) = (b * z - c * y, c * x - a * z, a * y - b * x)"

definition norm3 :: "vec \<Rightarrow> real" where
  \<comment> \<open>\<^verbatim>\<open>np.linalg.norm\<close> of a vector of three components\<close>
  "norm3 v = sqrt (dot v v)"

definition origin :: vec where
  "origin = (0, 0, 0)"

text \<open>
  A Python float as the script uses it: its numeric value, and the text that an
  f-string prints for it (\<^verbatim>\<open>f'{distance}'\<close>). The axis is a Python list: its three
  components and the text of \<^verbatim>\<open>f'{axis}'\<close>.
\<close>

record pyfloat =
  fval :: real
  fstr :: string

record pylist =
  lval :: vec
  lstr :: string

datatype error =
    FileNotFoundError string
  | ParseError string
  | ZeroDivisionError
  | WriteError string
  | ListdirError string

section \<open>Molecular structures and the library primitives\<close>

text \<open>
  An \<^verbatim>\<open>ase.Atoms\<close> object is an ordered sequence of atoms. Each atom has its element
  symbol, the mass that \<^verbatim>\<open>get_masses()\<close> reports for it, and a position. A position
  \<open>None\<close> stands for a position that is not a point of real space (not-a-number or
  infinite coordinates).
\<close>

record atom =
  symbol :: string
  mass :: real
  position :: "vec option"

type_synonym atoms = "atom list"

fun positions :: "atoms \<Rightarrow> vec list option" where
  "positions [] = Some []"
| "positions (a # as) =
     (case position a of
        None \<Rightarrow> None
      | Some p \<Rightarrow> (case positions as of None \<Rightarrow> None | Some ps \<Rightarrow> Some (p # ps)))"

fun mdot :: "real list \<Rightarrow> vec list \<Rightarrow> vec" where
  \<comment> \<open>\<^verbatim>\<open>masses @ positions\<close>: the mass-weighted sum of the positions\<close>
  "mdot (m # ms) (p # ps) = vadd (smul m p) (mdot ms ps)"
| "mdot _ _ = (0, 0, 0)"

definition get_center_of_mass :: "atoms \<Rightarrow> vec option" where
  \<comment> \<open>Modelled from the spec: \<^verbatim>\<open>Atoms.get_center_of_mass\<close> of the structure library is
      not in src/. The mass-weighted average position,
      \<^verbatim>\<open>masses @ positions / masses.sum()\<close>; with total mass zero (no atoms, for one)
      the quotient is not a number.\<close>
  "get_center_of_mass s =
     (case positions s of
        None \<Rightarrow> None
      | Some ps \<Rightarrow>
          (let masses = map mass s; total = sum_list masses
           in if total = 0 then None else Some (vdiv (mdot masses ps) total)))"

definition translate :: "atoms \<Rightarrow> vec option \<Rightarrow> atoms" where
  \<comment> \<open>Modelled from the spec: \<^verbatim>\<open>Atoms.translate\<close> is not in src/. In-place translation:
      the displacement is added to every position.\<close>
  "translate s d =
     map (\<lambda>a. a\<lparr>position :=
                  (case position a of
                     None \<Rightarrow> None
                   | Some p \<Rightarrow> (case d of None \<Rightarrow> None | Some t \<Rightarrow> Some (vadd p t)))\<rparr>) s"

definition rot_point :: "real \<Rightarrow> real \<Rightarrow> vec \<Rightarrow> vec \<Rightarrow> vec" where
  \<comment> \<open>\<^verbatim>\<open>c * p - np.cross(p, s * v) + np.outer(np.dot(p, v), (1.0 - c) * v)\<close>\<close>
  "rot_point c s v p =
     vadd (vadd (smul c p) (vneg (cross p (smul s v)))) (smul (dot p v) (smul (1 - c) v))"

definition rotate_atoms :: "atoms \<Rightarrow> vec \<Rightarrow> real \<Rightarrow> error + atoms" where
  \<comment> \<open>Modelled from the spec: \<^verbatim>\<open>Atoms.rotate\<close> is not in src/. In-place rotation about
      an axis through the origin by an angle in degrees; the axis is normalised by the
      primitive, which raises on an axis of norm zero.\<close>
  "rotate_atoms s v a =
     (let normv = norm3 v
      in if normv = 0 then Inl ZeroDivisionError
         else
           (let a' = a * (pi / 180);
                v' = vdiv v normv;
                c = cos a';
                sn = sin a'
            in Inr (map (\<lambda>b. b\<lparr>position := map_option (rot_point c sn v') (position b)\<rparr>) s)))"

definition add_atoms :: "atoms \<Rightarrow> atoms \<Rightarrow> atoms" where
  \<comment> \<open>Modelled from the spec: \<^verbatim>\<open>Atoms.__add__\<close> is not in src/. The atoms of the first
      operand followed by the atoms of the second.\<close>
  "add_atoms s t = s @ t"

section \<open>The geometry of \<^verbatim>\<open>make_dimer_xyz\<close>\<close>

definition center :: "atoms \<Rightarrow> atoms" where
  \<comment> \<open>\<^verbatim>\<open>s.translate(-s.get_center_of_mass())\<close>\<close>
  "center s = translate s (map_option vneg (get_center_of_mass s))"

definition combine :: "atoms \<Rightarrow> atoms \<Rightarrow> pyfloat \<Rightarrow> pyfloat \<Rightarrow> pylist \<Rightarrow> error + atoms" where
  \<comment> \<open>lines 42 to 53 of \<^verbatim>\<open>make_dimer_xyz\<close>: centre both, rotate the cluster, move it
      along z, add\<close>
  "combine molecule cluster distance angle axis =
     (let molecule1 = center molecule;
          cluster1 = center cluster
      in case rotate_atoms cluster1 (lval axis) (fval angle) of
           Inl e \<Rightarrow> Inl e
         | Inr cluster2 \<Rightarrow>
             (let cluster3 = translate cluster2 (Some (0, 0, fval distance))
              in Inr (add_atoms molecule1 cluster3)))"

definition transform_cluster :: "atoms \<Rightarrow> pyfloat \<Rightarrow> pyfloat \<Rightarrow> pylist \<Rightarrow> error + atoms" where
  \<comment> \<open>what lines 44 to 50 make of the cluster: centred, rotated, moved along z\<close>
  "transform_cluster cluster distance angle axis =
     (case rotate_atoms (center cluster) (lval axis) (fval angle) of
        Inl e \<Rightarrow> Inl e
      | Inr cluster2 \<Rightarrow> Inr (translate cluster2 (Some (0, 0, fval distance))))"

fun zcoord :: "vec \<Rightarrow> real" where
  "zcoord (x, y, z) = z"

subsection \<open>Rotation about an axis by the right-hand rule, as the specification words it\<close>

definition radians :: "real \<Rightarrow> real" where
  "radians deg = deg * (pi / 180)"

definition unit_vector :: "vec \<Rightarrow> vec" where
  "unit_vector v = vdiv v (norm3 v)"

definition rotation_rhr :: "vec \<Rightarrow> real \<Rightarrow> vec \<Rightarrow> vec" where
  \<comment> \<open>Rotation by the angle \<open>t\<close> about the unit vector \<open>u\<close>, counter-clockwise when seen
      from the tip of \<open>u\<close>: the component of \<open>p\<close> along \<open>u\<close> stays, the component across
      \<open>u\<close> turns by \<open>t\<close> towards \<open>u \<times> p\<close>.\<close>
  "rotation_rhr u t p =
     (let along = smul (dot p u) u;
          across = vadd p (vneg along)
      in vadd along (vadd (smul (cos t) across) (smul (sin t) (cross u p))))"

definition rotated_rhr :: "vec \<Rightarrow> real \<Rightarrow> atoms \<Rightarrow> atoms" where
  "rotated_rhr v deg s =
     map (\<lambda>b. b\<lparr>position := map_option (rotation_rhr (unit_vector v) (radians deg)) (position b)\<rparr>) s"

section \<open>Strings and paths\<close>

definition endswith :: "string \<Rightarrow> string \<Rightarrow> bool" where
  \<comment> \<open>\<^verbatim>\<open>str.endswith\<close>\<close>
  "endswith s suf =
     (length suf \<le> length s \<and> drop (length s - length suf) s = suf)"

fun rfind_from :: "char \<Rightarrow> string \<Rightarrow> int \<Rightarrow> int \<Rightarrow> int" where
  "rfind_from ch [] i found = found"
| "rfind_from ch (x # xs) i found = rfind_from ch xs (i + 1) (if x = ch then i else found)"

definition rfind :: "string \<Rightarrow> char \<Rightarrow> int" where
  \<comment> \<open>\<^verbatim>\<open>str.rfind\<close> of one character: its last index, or -1\<close>
  "rfind p ch = rfind_from ch p 0 (- 1)"

definition splitext :: "string \<Rightarrow> string \<times> string" where
  \<comment> \<open>\<^verbatim>\<open>os.path.splitext\<close> (POSIX): split at the last dot of the last path component,
      unless only dots come before it in that component. The loop of the library
      returns at the first character that is not a dot, which is the existence test
      written here.\<close>
  "splitext p =
     (let sepIndex = rfind p (CHR ''/'');
          dotIndex = rfind p (CHR ''.'')
      in if dotIndex > sepIndex \<and>
            list_ex (\<lambda>ch. ch \<noteq> CHR ''.'')
              (take (nat (dotIndex - (sepIndex + 1))) (drop (nat (sepIndex + 1)) p))
         then (take (nat dotIndex) p, drop (nat dotIndex) p)
         else (p, []))"

section \<open>Files, directories and the calls the script makes\<close>

text \<open>
  The world the script runs in: what \<^verbatim>\<open>os.listdir\<close> returns for a path, what is stored
  at a path, and how the library's \<^verbatim>\<open>write\<close> of a file with a given comment line at
  a path ends. The library opens the target, which creates or truncates it, and then
  runs its writer: a write is completed, or it fails before the target is opened and
  changes nothing, or it fails in the writer and leaves the target truncated. A stored
  coordinate file is its comment line and its atoms (the count line is the number of
  atoms); anything else stored at a path, a truncated file too, does not parse.
  Every function returns the list of calls it made, the world it leaves and its result;
  an exception is an \<open>Inl\<close> result.

  Directory entries hold no \<^verbatim>\<open>/\<close>, so the script writes into the working directory
  itself and no write changes a listing.
\<close>

datatype stored = XYZ string atoms | Unparsable

datatype write_outcome = Written | OpenFails | WriterFails

record world =
  dirs :: "string \<Rightarrow> string list option"
  files :: "string \<Rightarrow> stored option"
  writing :: "string \<Rightarrow> string \<Rightarrow> write_outcome"

definition writable :: "world \<Rightarrow> string \<Rightarrow> string \<Rightarrow> bool" where
  \<comment> \<open>the write of a file with this comment line at this path is completed\<close>
  "writable w path comment \<longleftrightarrow> writing w path comment = Written"

datatype event =
    Call string string pyfloat pyfloat pylist
  | Listdir string
  | Read string
  | Write string string atoms
  | Print string

type_synonym 'a io = "event list \<times> world \<times> (error + 'a)"

definition then_io :: "(world \<Rightarrow> 'a io) \<Rightarrow> ('a \<Rightarrow> world \<Rightarrow> 'b io) \<Rightarrow> world \<Rightarrow> 'b io" where
  \<comment> \<open>one statement after another: an exception of the first ends both\<close>
  "then_io f g w =
     (case f w of
        (evs1, w1, Inl e) \<Rightarrow> (evs1, w1, Inl e)
      | (evs1, w1, Inr x) \<Rightarrow> (case g x w1 of (evs2, w2, r) \<Rightarrow> (evs1 @ evs2, w2, r)))"

definition listdir :: "string \<Rightarrow> world \<Rightarrow> string list io" where
  \<comment> \<open>\<^verbatim>\<open>os.listdir\<close>\<close>
  "listdir path w =
     ([Listdir path], w,
      case dirs w path of None \<Rightarrow> Inl (ListdirError path) | Some names \<Rightarrow> Inr names)"

definition read :: "string \<Rightarrow> world \<Rightarrow> atoms io" where
  \<comment> \<open>Modelled from the spec: \<^verbatim>\<open>ase.io.read\<close> is not in src/. Parses the coordinate
      file at the path into a structure; a missing file and a file that does not parse
      raise.\<close>
  "read path w =
     ([Read path], w,
      case files w path of
        None \<Rightarrow> Inl (FileNotFoundError path)
      | Some Unparsable \<Rightarrow> Inl (ParseError path)
      | Some (XYZ comment images) \<Rightarrow> Inr images)"

definition write_atoms :: "string \<Rightarrow> atoms \<Rightarrow> string \<Rightarrow> world \<Rightarrow> unit io" where
  \<comment> \<open>Modelled from the spec: \<^verbatim>\<open>ase.io.write\<close> is not in src/. Stores the structure
      with its comment line at the path, replacing what was there, or raises: before
      the target is opened, or in the writer, after the target was truncated.\<close>
  "write_atoms path images comment w =
     (case writing w path comment of
        Written \<Rightarrow>
          ([Write path comment images],
           w\<lparr>files := (files w)(path \<mapsto> XYZ comment images)\<rparr>, Inr ())
      | OpenFails \<Rightarrow> ([Write path comment images], w, Inl (WriteError path))
      | WriterFails \<Rightarrow>
          ([Write path comment images],
           w\<lparr>files := (files w)(path \<mapsto> Unparsable)\<rparr>, Inl (WriteError path)))"

definition print :: "string \<Rightarrow> world \<Rightarrow> unit io" where
  "print line w = ([Print line], w, Inr ())"

definition entered :: "event \<Rightarrow> world \<Rightarrow> unit io" where
  \<comment> \<open>records that a function was entered with these arguments\<close>
  "entered ev w = ([ev], w, Inr ())"

definition raise_or_return :: "error + 'a \<Rightarrow> world \<Rightarrow> 'a io" where
  \<comment> \<open>a computation without calls: its value, or its exception\<close>
  "raise_or_return r w = ([], w, r)"

section \<open>The script\<close>

definition output_filename :: "string \<Rightarrow> string \<Rightarrow> pyfloat \<Rightarrow> pyfloat \<Rightarrow> string" where
  \<comment> \<open>lines 56 to 58\<close>
  "output_filename molecule_file cluster_file distance angle =
     (let base_name_a = fst (splitext molecule_file);
          base_name_b = fst (splitext cluster_file)
      in base_name_a @ ''_'' @ base_name_b @ ''_D'' @ fstr distance @ ''_A'' @ fstr angle @ ''.xyz'')"

definition comment_line :: "string \<Rightarrow> string \<Rightarrow> pyfloat \<Rightarrow> pyfloat \<Rightarrow> pylist \<Rightarrow> string" where
  \<comment> \<open>line 59\<close>
  "comment_line molecule_file cluster_file distance angle axis =
     (let base_name_a = fst (splitext molecule_file);
          base_name_b = fst (splitext cluster_file)
      in base_name_a @ '' + '' @ base_name_b @ '': Distance = '' @ fstr distance
         @ '', Angle = '' @ fstr angle @ '', Axis = '' @ lstr axis)"

definition make_dimer_xyz ::
  "string \<Rightarrow> string \<Rightarrow> pyfloat \<Rightarrow> pyfloat \<Rightarrow> pylist \<Rightarrow> world \<Rightarrow> unit io" where
  "make_dimer_xyz molecule_file cluster_file distance angle axis =
     then_io (entered (Call molecule_file cluster_file distance angle axis)) (\<lambda>_.
     then_io (read (''../molecules/'' @ molecule_file)) (\<lambda>molecule.
     then_io (read (''../clusters/'' @ cluster_file)) (\<lambda>cluster.
     then_io (raise_or_return (combine molecule cluster distance angle axis)) (\<lambda>dimer.
     then_io (write_atoms (output_filename molecule_file cluster_file distance angle) dimer
                (comment_line molecule_file cluster_file distance angle axis)) (\<lambda>_.
     print (''Saved: '' @ output_filename molecule_file cluster_file distance angle))))))"

definition molecules_dir :: string where
  "molecules_dir = ''molecules''"

definition clusters_dir :: string where
  "clusters_dir = ''clusters''"

text \<open>The literals of the two calls in the loop body (lines 75 and 76).\<close>

definition distance_4 :: pyfloat where
  "distance_4 = \<lparr>fval = 4, fstr = ''4.0''\<rparr>"

definition angle_0 :: pyfloat where
  "angle_0 = \<lparr>fval = 0, fstr = ''0.0''\<rparr>"

definition angle_90 :: pyfloat where
  "angle_90 = \<lparr>fval = 90, fstr = ''90.0''\<rparr>"

definition axis_x :: pylist where
  "axis_x = \<lparr>lval = (1, 0, 0), lstr = ''[1, 0, 0]''\<rparr>"

definition axis_z :: pylist where
  "axis_z = \<lparr>lval = (0, 0, 1), lstr = ''[0, 0, 1]''\<rparr>"

fun loop_clusters :: "string \<Rightarrow> string list \<Rightarrow> world \<Rightarrow> unit io" where
  \<comment> \<open>the inner loop, lines 72 to 76\<close>
  "loop_clusters molecule_file [] w = ([], w, Inr ())"
| "loop_clusters molecule_file (cluster_file # rest) w =
     (if endswith cluster_file ''.xyz''
      then then_io (make_dimer_xyz molecule_file cluster_file distance_4 angle_0 axis_x) (\<lambda>_.
           then_io (make_dimer_xyz molecule_file cluster_file distance_4 angle_90 axis_z) (\<lambda>_.
           loop_clusters molecule_file rest)) w
      else loop_clusters molecule_file rest w)"

fun loop_molecules :: "string list \<Rightarrow> world \<Rightarrow> unit io" where
  \<comment> \<open>the outer loop, lines 70 to 76\<close>
  "loop_molecules [] w = ([], w, Inr ())"
| "loop_molecules (molecule_file # rest) w =
     (if endswith molecule_file ''.xyz''
      then then_io (listdir clusters_dir) (\<lambda>cluster_files.
           then_io (loop_clusters molecule_file cluster_files) (\<lambda>_.
           loop_molecules rest)) w
      else loop_molecules rest w)"

definition main :: "world \<Rightarrow> unit io" where
  \<comment> \<open>the module body\<close>
  "main = then_io (listdir molecules_dir) loop_molecules"

section \<open>Reading a trace\<close>

type_synonym job = "string \<times> string \<times> pyfloat \<times> pyfloat \<times> pylist"

fun invocations :: "event list \<Rightarrow> job list" where
  "invocations [] = []"
| "invocations (Call m c d a x # evs) = (m, c, d, a, x) # invocations evs"
| "invocations (_ # evs) = invocations evs"

fun listed :: "event list \<Rightarrow> string list" where
  "listed [] = []"
| "listed (Listdir p # evs) = p # listed evs"
| "listed (_ # evs) = listed evs"

fun read_paths :: "event list \<Rightarrow> string list" where
  "read_paths [] = []"
| "read_paths (Read p # evs) = p # read_paths evs"
| "read_paths (_ # evs) = read_paths evs"

fun written :: "event list \<Rightarrow> string list" where
  "written [] = []"
| "written (Write p c s # evs) = p # written evs"
| "written (_ # evs) = written evs"

fun erase :: "event \<Rightarrow> event" where
  \<comment> \<open>a call without the atoms it wrote\<close>
  "erase (Write p c s) = Write p c []"
| "erase ev = ev"

fun effect :: "world \<Rightarrow> event \<Rightarrow> world" where
  \<comment> \<open>the world after a call: only a write changes it\<close>
  "effect w (Write p c s) =
     (case writing w p c of
        Written \<Rightarrow> w\<lparr>files := (files w)(p \<mapsto> XYZ c s)\<rparr>
      | OpenFails \<Rightarrow> w
      | WriterFails \<Rightarrow> w\<lparr>files := (files w)(p \<mapsto> Unparsable)\<rparr>)"
| "effect w ev = w"

fun replay :: "world \<Rightarrow> event list \<Rightarrow> world" where
  \<comment> \<open>the world after the calls of a trace, each in its turn\<close>
  "replay w [] = w"
| "replay w (ev # evs) = replay (effect w ev) evs"

fun fails :: "world \<Rightarrow> event \<Rightarrow> bool" where
  \<comment> \<open>the call raises in this world\<close>
  "fails w (Listdir p) = (dirs w p = None)"
| "fails w (Read p) = (case files w p of Some (XYZ c s) \<Rightarrow> False | _ \<Rightarrow> True)"
| "fails w (Write p c s) = (writing w p c \<noteq> Written)"
| "fails w ev = False"

fun succeeded :: "world \<Rightarrow> event list \<Rightarrow> bool" where
  \<comment> \<open>no call of the trace raises, each taken in the world its predecessors left\<close>
  "succeeded w [] = True"
| "succeeded w (ev # evs) = (\<not> fails w ev \<and> succeeded (effect w ev) evs)"

fun raises :: "world \<Rightarrow> event \<Rightarrow> error \<Rightarrow> bool" where
  \<comment> \<open>the call fails in this world with this exception\<close>
  "raises w (Listdir p) e = (dirs w p = None \<and> e = ListdirError p)"
| "raises w (Read p) e =
     (case files w p of
        None \<Rightarrow> e = FileNotFoundError p
      | Some Unparsable \<Rightarrow> e = ParseError p
      | Some (XYZ c s) \<Rightarrow> False)"
| "raises w (Write p c s) e = (\<not> writable w p c \<and> e = WriteError p)"
| "raises w _ e = False"

definition xyz_names :: "string list \<Rightarrow> string list" where
  "xyz_names names = filter (\<lambda>f. endswith f ''.xyz'') names"

definition listing :: "world \<Rightarrow> string \<Rightarrow> string list" where
  "listing w path = (case dirs w path of None \<Rightarrow> [] | Some names \<Rightarrow> names)"

definition job_events :: "job \<Rightarrow> event list" where
  \<comment> \<open>the calls of one job that runs to its end, without the atoms\<close>
  "job_events j =
     (case j of (m, c, d, a, x) \<Rightarrow>
        [Call m c d a x, Read (''../molecules/'' @ m), Read (''../clusters/'' @ c),
         Write (output_filename m c d a) (comment_line m c d a x) [],
         Print (''Saved: '' @ output_filename m c d a)])"

definition pair_jobs :: "string \<Rightarrow> string \<Rightarrow> job list" where
  "pair_jobs m c = [(m, c, distance_4, angle_0, axis_x), (m, c, distance_4, angle_90, axis_z)]"

definition cluster_events :: "string \<Rightarrow> string list \<Rightarrow> event list" where
  "cluster_events m cs = concat (map (\<lambda>c. concat (map job_events (pair_jobs m c))) (xyz_names cs))"

definition molecule_events :: "string list \<Rightarrow> string list \<Rightarrow> event list" where
  "molecule_events ms cs =
     concat (map (\<lambda>m. Listdir clusters_dir # cluster_events m cs) (xyz_names ms))"

definition all_jobs :: "string list \<Rightarrow> string list \<Rightarrow> job list" where
  \<comment> \<open>two jobs for every pair of accepted names, molecules outermost\<close>
  "all_jobs ms cs =
     concat (map (\<lambda>m. concat (map (\<lambda>c. pair_jobs m c) (xyz_names cs))) (xyz_names ms))"

definition main_events :: "world \<Rightarrow> event list" where
  \<comment> \<open>the calls of a run in which nothing fails, without the atoms\<close>
  "main_events w =
     Listdir molecules_dir # molecule_events (listing w molecules_dir) (listing w clusters_dir)"

fun job_output :: "job \<Rightarrow> string" where
  "job_output (m, c, d, a, x) = output_filename m c d a"

fun job_reads :: "job \<Rightarrow> string list" where
  "job_reads (m, c, d, a, x) = [''../molecules/'' @ m, ''../clusters/'' @ c]"

fun job_pair :: "job \<Rightarrow> string \<times> string" where
  "job_pair (m, c, d, a, x) = (m, c)"

definition faithful :: "world \<Rightarrow> event list \<Rightarrow> world \<Rightarrow> error + unit \<Rightarrow> event list \<Rightarrow> bool" where
  \<comment> \<open>what every part of the script keeps: the world it leaves is the old one with the
      effects of its calls, the trace follows the expected one, no call but the last
      raises, and an exception is the one of the last call\<close>
  "faithful w evs w' r expected \<longleftrightarrow>
     w' = replay w evs \<and>
     prefix (map erase evs) expected \<and>
     (case r of
        Inr u \<Rightarrow> map erase evs = expected \<and> succeeded w evs
      | Inl e \<Rightarrow> evs \<noteq> [] \<and> succeeded w (butlast evs) \<and>
                 raises (replay w (butlast evs)) (last evs) e)"

fun job_comment :: "job \<Rightarrow> string" where
  "job_comment (m, c, d, a, x) = comment_line m c d a x"

definition readable :: "world \<Rightarrow> string \<Rightarrow> bool" where
  \<comment> \<open>a coordinate file that parses is stored at the path\<close>
  "readable w p = (\<exists>c s. files w p = Some (XYZ c s))"

definition ready :: "world \<Rightarrow> bool" where
  \<comment> \<open>nothing can fail: the directories can be listed, every accepted file parses and
      every output file can be written\<close>
  "ready w \<longleftrightarrow>
     dirs w molecules_dir \<noteq> None \<and>
     (xyz_names (listing w molecules_dir) \<noteq> [] \<longrightarrow> dirs w clusters_dir \<noteq> None) \<and>
     (\<forall>j \<in> set (all_jobs (listing w molecules_dir) (listing w clusters_dir)).
        (\<forall>p \<in> set (job_reads j). readable w p) \<and> writable w (job_output j) (job_comment j))"

subsection \<open>Example inputs\<close>

definition water :: atoms where
  "water = [\<lparr>symbol = ''O'', mass = 16, position = Some (0, 0, 0)\<rparr>,
            \<lparr>symbol = ''H'', mass = 1, position = Some (1, 0, 0)\<rparr>,
            \<lparr>symbol = ''H'', mass = 1, position = Some (0, 1, 0)\<rparr>]"

definition Ar2 :: atoms where
  "Ar2 = [\<lparr>symbol = ''Ar'', mass = 40, position = Some (0, 0, 0)\<rparr>,
          \<lparr>symbol = ''Ar'', mass = 40, position = Some (2, 0, 0)\<rparr>]"

definition example_world :: world where
  \<comment> \<open>one molecule and a text file in \<^verbatim>\<open>molecules\<close>, one cluster in \<^verbatim>\<open>clusters\<close>\<close>
  "example_world =
     \<lparr>dirs = [''molecules'' \<mapsto> [''water.xyz'', ''notes.txt''], ''clusters'' \<mapsto> [''Ar2.xyz'']],
      files = [''../molecules/water.xyz'' \<mapsto> XYZ ''water'' water,
               ''../clusters/Ar2.xyz'' \<mapsto> XYZ ''argon dimer'' Ar2],
      writing = (\<lambda>p c. Written)\<rparr>"

definition failing_world :: world where
  \<comment> \<open>as before, with a second cluster file that does not parse\<close>
  "failing_world =
     \<lparr>dirs = [''molecules'' \<mapsto> [''water.xyz''], ''clusters'' \<mapsto> [''Ar2.xyz'', ''bad.xyz'']],
      files = [''../molecules/water.xyz'' \<mapsto> XYZ ''water'' water,
               ''../clusters/Ar2.xyz'' \<mapsto> XYZ ''argon dimer'' Ar2,
               ''../clusters/bad.xyz'' \<mapsto> Unparsable],
      writing = (\<lambda>p c. Written)\<rparr>"

definition empty_world :: world where
  \<comment> \<open>nothing in \<^verbatim>\<open>molecules\<close>\<close>
  "empty_world =
     \<lparr>dirs = [''molecules'' \<mapsto> []], files = (\<lambda>p. None), writing = (\<lambda>p c. Written)\<rparr>"

definition clash_world :: world where
  \<comment> \<open>two pairs with one output name, \<^verbatim>\<open>a\<close> with \<^verbatim>\<open>b_c\<close> and \<^verbatim>\<open>a_b\<close> with \<^verbatim>\<open>c\<close>; the
      writer fails when the second of them writes\<close>
  "clash_world =
     \<lparr>dirs = [''molecules'' \<mapsto> [''a.xyz'', ''a_b.xyz''], ''clusters'' \<mapsto> [''c.xyz'', ''b_c.xyz'']],
      files = [''../molecules/a.xyz'' \<mapsto> XYZ ''water'' water,
               ''../molecules/a_b.xyz'' \<mapsto> XYZ ''water'' water,
               ''../clusters/c.xyz'' \<mapsto> XYZ ''argon dimer'' Ar2,
               ''../clusters/b_c.xyz'' \<mapsto> XYZ ''argon dimer'' Ar2],
      writing = (\<lambda>p c. if c = ''a_b + c: Distance = 4.0, Angle = 0.0, Axis = [1, 0, 0]''
                         then WriterFails else Written)\<rparr>"

section \<open>Facts about the geometry\<close>

lemma positions_length: "positions s = Some ps \<Longrightarrow> length ps = length s"
  by (induction s arbitrary: ps) (auto split: option.splits)

lemma mass_translate: "map mass (translate s d) = map mass s"
  by (simp add: translate_def)

lemma symbol_translate: "map symbol (translate s d) = map symbol s"
  by (simp add: translate_def)

lemma length_translate: "length (translate s d) = length s"
  by (simp add: translate_def)

lemma positions_translate_Some:
  "positions (translate s (Some t)) = map_option (map (\<lambda>p. vadd p t)) (positions s)"
  by (induction s) (auto simp: translate_def split: option.splits)

lemma mdot_shift:
  "length ms = length ps \<Longrightarrow>
   mdot ms (map (\<lambda>p. vadd p t) ps) = vadd (mdot ms ps) (smul (sum_list ms) t)"
proof (induction ms ps rule: list_induct2)
  case Nil
  show ?case by (cases t) simp
next
  case (Cons m ms p ps)
  then show ?case by (cases t; cases p; cases "mdot ms ps") (simp add: algebra_simps)
qed

lemma mdot_rot: "mdot ms (map (rot_point c s v) ps) = rot_point c s v (mdot ms ps)"
proof (induction ms ps rule: mdot.induct)
  case (1 m ms p ps)
  then show ?case
    by (cases v; cases p; cases "mdot ms ps") (simp add: rot_point_def algebra_simps)
qed (cases v; simp add: rot_point_def)+

lemma com_unfold:
  assumes "get_center_of_mass s = Some c"
  obtains ps where "positions s = Some ps" and "sum_list (map mass s) \<noteq> 0"
    and "c = vdiv (mdot (map mass s) ps) (sum_list (map mass s))"
  using assms
  by (auto simp: get_center_of_mass_def Let_def split: option.splits if_splits)

lemma com_origin_unfold:
  assumes "get_center_of_mass s = Some origin"
  obtains ps where "positions s = Some ps" and "sum_list (map mass s) \<noteq> 0"
    and "mdot (map mass s) ps = (0, 0, 0)"
proof -
  from assms obtain ps where ps: "positions s = Some ps"
    and tot: "sum_list (map mass s) \<noteq> 0"
    and c: "origin = vdiv (mdot (map mass s) ps) (sum_list (map mass s))"
    by (rule com_unfold)
  from c tot have "mdot (map mass s) ps = (0, 0, 0)"
    by (cases "mdot (map mass s) ps") (simp add: origin_def)
  with ps tot show thesis by (rule that)
qed

lemma com_center:
  assumes "get_center_of_mass s = Some c"
  shows "get_center_of_mass (center s) = Some origin"
proof -
  from assms obtain ps where ps: "positions s = Some ps"
    and tot: "sum_list (map mass s) \<noteq> 0"
    and c: "c = vdiv (mdot (map mass s) ps) (sum_list (map mass s))"
    by (rule com_unfold)
  have len: "length (map mass s) = length ps" using positions_length[OF ps] by simp
  have "positions (center s) = Some (map (\<lambda>p. vadd p (vneg c)) ps)"
    using assms ps by (simp add: center_def positions_translate_Some)
  moreover have "mdot (map mass s) (map (\<lambda>p. vadd p (vneg c)) ps) = origin"
    using tot unfolding mdot_shift[OF len] c origin_def
    by (cases "mdot (map mass s) ps") (simp add: field_simps)
  ultimately show ?thesis
    using tot by (simp add: get_center_of_mass_def center_def mass_translate origin_def)
qed

lemma com_exists:
  assumes "s \<noteq> []" and "\<forall>b \<in> set s. 0 < mass b \<and> position b \<noteq> None"
  shows "get_center_of_mass s \<noteq> None"
proof -
  have "positions s \<noteq> None" using assms(2) by (induction s) (auto split: option.splits)
  moreover have "0 < sum_list (map mass s)"
  proof (cases s)
    case Nil
    with assms(1) show ?thesis by simp
  next
    case (Cons b bs)
    have "0 \<le> sum_list (map mass bs)"
      using assms(2) Cons by (intro sum_list_nonneg) (auto simp: less_imp_le)
    moreover have "0 < mass b" using assms(2) Cons by simp
    ultimately show ?thesis using Cons by simp
  qed
  ultimately show ?thesis
    by (cases "positions s") (simp_all add: get_center_of_mass_def Let_def)
qed

lemma norm3_zero_iff: "norm3 v = 0 \<longleftrightarrow> v = (0, 0, 0)"
proof (cases v)
  case (fields x y z)
  have "x * x + y * y + z * z = 0 \<longleftrightarrow> x = 0 \<and> y = 0 \<and> z = 0"
    using sum_power2_eq_zero_iff[of x y] add_nonneg_eq_0_iff[of "x\<^sup>2 + y\<^sup>2" "z\<^sup>2"]
    by (simp add: power2_eq_square)
  then show ?thesis using fields by (simp add: norm3_def)
qed

lemma rot_point_rhr: "rot_point (cos t) (sin t) u = rotation_rhr u t"
proof
  fix p
  show "rot_point (cos t) (sin t) u p = rotation_rhr u t p"
    by (cases u; cases p) (simp add: rot_point_def rotation_rhr_def Let_def algebra_simps)
qed

lemma rotation_rhr_origin: "rotation_rhr u t (0, 0, 0) = (0, 0, 0)"
  by (cases u) (simp add: rotation_rhr_def)

lemma rotation_rhr_zero_angle: "rotation_rhr u 0 p = p"
  by (cases u; cases p) (simp add: rotation_rhr_def Let_def)

lemma rotate_atoms_Inr:
  "rotate_atoms s v a = Inr s' \<longleftrightarrow> v \<noteq> (0, 0, 0) \<and> s' = rotated_rhr v a s"
  by (auto simp: rotate_atoms_def Let_def norm3_zero_iff rotated_rhr_def rot_point_rhr
        unit_vector_def radians_def)

lemma rotate_atoms_Inl:
  "rotate_atoms s v a = Inl e \<longleftrightarrow> v = (0, 0, 0) \<and> e = ZeroDivisionError"
  by (auto simp: rotate_atoms_def Let_def norm3_zero_iff)

lemma mass_rotated: "map mass (rotated_rhr v a s) = map mass s"
  by (simp add: rotated_rhr_def)

lemma symbol_rotated: "map symbol (rotated_rhr v a s) = map symbol s"
  by (simp add: rotated_rhr_def)

lemma length_rotated: "length (rotated_rhr v a s) = length s"
  by (simp add: rotated_rhr_def)

lemma positions_rotated:
  "positions (rotated_rhr v a s) =
     map_option (map (rotation_rhr (unit_vector v) (radians a))) (positions s)"
  by (induction s) (auto simp: rotated_rhr_def split: option.splits)

lemma rotated_zero_angle: "rotated_rhr v 0 s = s"
proof -
  have "rotation_rhr (unit_vector v) (radians 0) = (\<lambda>p. p)"
    by (simp add: radians_def fun_eq_iff rotation_rhr_zero_angle)
  then show ?thesis by (simp add: rotated_rhr_def option.map_ident map_idI)
qed

lemma com_rotated_centered:
  assumes "get_center_of_mass s = Some origin"
  shows "get_center_of_mass (rotated_rhr v a s) = Some origin"
proof -
  from assms obtain ps where ps: "positions s = Some ps"
    and tot: "sum_list (map mass s) \<noteq> 0"
    and z: "mdot (map mass s) ps = (0, 0, 0)"
    by (rule com_origin_unfold)
  have "mdot (map mass s) (map (rotation_rhr (unit_vector v) (radians a)) ps) = (0, 0, 0)"
    using mdot_rot[of "map mass s" "cos (radians a)" "sin (radians a)" "unit_vector v" ps] z
    by (simp add: rot_point_rhr rotation_rhr_origin)
  then show ?thesis
    using tot ps by (simp add: get_center_of_mass_def positions_rotated mass_rotated origin_def)
qed

lemma com_translate_centered:
  assumes "get_center_of_mass s = Some origin"
  shows "get_center_of_mass (translate s (Some t)) = Some t"
proof -
  from assms obtain ps where ps: "positions s = Some ps"
    and tot: "sum_list (map mass s) \<noteq> 0"
    and z: "mdot (map mass s) ps = (0, 0, 0)"
    by (rule com_origin_unfold)
  have len: "length (map mass s) = length ps" using positions_length[OF ps] by simp
  have "vdiv (mdot (map mass s) (map (\<lambda>p. vadd p t) ps)) (sum_list (map mass s)) = t"
    unfolding mdot_shift[OF len] z using tot by (cases t) simp
  then show ?thesis
    using tot ps by (simp add: get_center_of_mass_def positions_translate_Some mass_translate)
qed

lemma transform_cluster_Inr:
  "transform_cluster cluster distance angle axis = Inr cluster3 \<longleftrightarrow>
     lval axis \<noteq> (0, 0, 0) \<and>
     cluster3 = translate (rotated_rhr (lval axis) (fval angle) (center cluster))
                  (Some (0, 0, fval distance))"
  by (auto simp: transform_cluster_def rotate_atoms_Inr rotate_atoms_Inl split: sum.splits)

lemma combine_Inr:
  "combine molecule cluster distance angle axis = Inr dimer \<longleftrightarrow>
     lval axis \<noteq> (0, 0, 0) \<and>
     dimer = center molecule @
       translate (rotated_rhr (lval axis) (fval angle) (center cluster))
         (Some (0, 0, fval distance))"
  by (auto simp: combine_def Let_def add_atoms_def rotate_atoms_Inr rotate_atoms_Inl
        split: sum.splits)

lemma combine_Inl:
  "combine molecule cluster distance angle axis = Inl e \<longleftrightarrow>
     lval axis = (0, 0, 0) \<and> e = ZeroDivisionError"
  by (auto simp: combine_def Let_def rotate_atoms_Inl rotate_atoms_Inr split: sum.splits)

lemma length_center: "length (center s) = length s"
  by (simp add: center_def translate_def)

section \<open>Facts about traces\<close>

lemma then_io_cases:
  assumes "then_io f g w = (evs, w', r)"
  obtains (raised) e where "f w = (evs, w', Inl e)" and "r = Inl e"
  | (returned) evs1 w1 x evs2 where "f w = (evs1, w1, Inr x)" and "g x w1 = (evs2, w', r)"
      and "evs = evs1 @ evs2"
  using assms by (auto simp: then_io_def split: prod.splits sum.splits)

lemma invocations_append: "invocations (xs @ ys) = invocations xs @ invocations ys"
  by (induction xs rule: invocations.induct) simp_all

lemma listed_append: "listed (xs @ ys) = listed xs @ listed ys"
  by (induction xs rule: listed.induct) simp_all

lemma read_paths_append: "read_paths (xs @ ys) = read_paths xs @ read_paths ys"
  by (induction xs rule: read_paths.induct) simp_all

lemma written_append: "written (xs @ ys) = written xs @ written ys"
  by (induction xs rule: written.induct) simp_all

lemma replay_append: "replay w (xs @ ys) = replay (replay w xs) ys"
  by (induction xs arbitrary: w) simp_all

lemma succeeded_append:
  "succeeded w (xs @ ys) \<longleftrightarrow> succeeded w xs \<and> succeeded (replay w xs) ys"
  by (induction xs arbitrary: w) simp_all

lemma dirs_effect: "dirs (effect w ev) = dirs w"
  by (cases ev) (simp_all split: write_outcome.splits)

lemma writing_effect: "writing (effect w ev) = writing w"
  by (cases ev) (simp_all split: write_outcome.splits)

lemma dirs_replay: "dirs (replay w evs) = dirs w"
  by (induction evs arbitrary: w) (simp_all add: dirs_effect)

lemma writing_replay: "writing (replay w evs) = writing w"
  by (induction evs arbitrary: w) (simp_all add: writing_effect)

lemma raises_fails: "raises w ev e \<Longrightarrow> fails w ev"
  by (cases ev) (auto simp: writable_def split: option.splits stored.splits)

lemma fails_raises: "fails w ev \<Longrightarrow> \<exists>e. raises w ev e"
  by (cases ev) (auto simp: writable_def split: option.splits stored.splits)

lemma succeeded_at:
  assumes "succeeded w evs" and "evs = pre @ ev # post"
  shows "\<not> fails (replay w pre) ev"
  using assms by (simp add: succeeded_append)

lemma succeeded_butlast: "succeeded w evs \<Longrightarrow> succeeded w (butlast evs)"
proof (cases "evs = []")
  case False
  assume "succeeded w evs"
  then have "succeeded w (butlast evs @ [last evs])" using False by simp
  then show ?thesis unfolding succeeded_append by simp
qed simp

lemma invocations_erase: "invocations (map erase evs) = invocations evs"
  by (induction evs rule: invocations.induct) simp_all

lemma listed_erase: "listed (map erase evs) = listed evs"
  by (induction evs rule: listed.induct) simp_all

lemma read_paths_erase: "read_paths (map erase evs) = read_paths evs"
  by (induction evs rule: read_paths.induct) simp_all

lemma written_erase: "written (map erase evs) = written evs"
  by (induction evs rule: written.induct) simp_all

lemma invocations_concat: "invocations (concat xss) = concat (map invocations xss)"
  by (induction xss) (simp_all add: invocations_append)

lemma listed_concat: "listed (concat xss) = concat (map listed xss)"
  by (induction xss) (simp_all add: listed_append)

lemma read_paths_concat: "read_paths (concat xss) = concat (map read_paths xss)"
  by (induction xss) (simp_all add: read_paths_append)

lemma written_concat: "written (concat xss) = concat (map written xss)"
  by (induction xss) (simp_all add: written_append)

lemma effect_keeps_parsed:
  assumes "\<not> fails w ev" and "\<exists>c s. files w p = Some (XYZ c s)"
  shows "\<exists>c s. files (effect w ev) p = Some (XYZ c s)"
  using assms by (cases ev) (auto split: write_outcome.splits)

lemma succeeded_write_stored:
  assumes "succeeded w evs" and "Write p c s \<in> set evs"
  shows "\<exists>c' s'. files (replay w evs) p = Some (XYZ c' s')"
  using assms
proof (induction evs rule: rev_induct)
  case Nil
  then show ?case by simp
next
  case (snoc ev evs)
  from snoc.prems(1) have before: "succeeded w evs" and last: "\<not> fails (replay w evs) ev"
    by (simp_all add: succeeded_append)
  have after: "replay w (evs @ [ev]) = effect (replay w evs) ev"
    by (simp add: replay_append)
  show ?case
  proof (cases "Write p c s \<in> set evs")
    case True
    from snoc.IH[OF before True] last show ?thesis
      unfolding after by (rule effect_keeps_parsed[rotated])
  next
    case False
    with snoc.prems(2) have "ev = Write p c s" by simp
    with last show ?thesis unfolding after by (simp split: write_outcome.splits)
  qed
qed

lemma last_effect_on_files:
  "files (effect w ev) p = files w p \<or>
   (\<exists>c s. ev = Write p c s \<and>
      (writing w p c = Written \<and> files (effect w ev) p = Some (XYZ c s) \<or>
       writing w p c = WriterFails \<and> files (effect w ev) p = Some Unparsable))"
  by (cases ev) (auto split: write_outcome.splits)

section \<open>Every part of the script is faithful to its expected trace\<close>

lemma faithful_seq:
  assumes "faithful w evs1 w1 (Inr u) xs" and "faithful w1 evs2 w2 r ys"
  shows "faithful w (evs1 @ evs2) w2 r (xs @ ys)"
proof -
  from assms(1) have one: "w1 = replay w evs1" "map erase evs1 = xs" "succeeded w evs1"
    unfolding faithful_def by simp_all
  from assms(2) have two: "w2 = replay w1 evs2" "prefix (map erase evs2) ys"
    "case r of Inr u \<Rightarrow> map erase evs2 = ys \<and> succeeded w1 evs2
       | Inl e \<Rightarrow> evs2 \<noteq> [] \<and> succeeded w1 (butlast evs2) \<and>
                  raises (replay w1 (butlast evs2)) (last evs2) e"
    unfolding faithful_def by simp_all
  have "case r of Inr u \<Rightarrow> map erase (evs1 @ evs2) = xs @ ys \<and> succeeded w (evs1 @ evs2)
        | Inl e \<Rightarrow> evs1 @ evs2 \<noteq> [] \<and> succeeded w (butlast (evs1 @ evs2)) \<and>
                   raises (replay w (butlast (evs1 @ evs2))) (last (evs1 @ evs2)) e"
    using two(3) one
    by (cases r) (simp_all add: butlast_append succeeded_append replay_append)
  moreover have "prefix (map erase (evs1 @ evs2)) (xs @ ys)"
    using two(2) one(2) by auto
  ultimately show ?thesis
    unfolding faithful_def using one(1) two(1) by (simp add: replay_append)
qed

lemma faithful_raised:
  assumes "faithful w evs w' (Inl e) xs"
  shows "faithful w evs w' (Inl e) (xs @ ys)"
  using assms by (auto simp: faithful_def)

lemma then_io_faithful:
  assumes "then_io f g w = (evs, w', r)"
    and "\<And>evs1 w1 r1. f w = (evs1, w1, r1) \<Longrightarrow>
           faithful w evs1 w1 (map_sum id (\<lambda>_. ()) r1) xs"
    and "\<And>evs1 w1 v evs2. f w = (evs1, w1, Inr v) \<Longrightarrow> g v w1 = (evs2, w', r) \<Longrightarrow>
           faithful w1 evs2 w' r ys"
  shows "faithful w evs w' r (xs @ ys)"
  using assms(1)
proof (cases rule: then_io_cases)
  case (raised e)
  from assms(2)[OF raised(1)] show ?thesis
    using raised(2) by (simp add: faithful_raised)
next
  case (returned evs1 w1 v evs2)
  from assms(2)[OF returned(1)] have "faithful w evs1 w1 (Inr ()) xs" by simp
  from faithful_seq[OF this assms(3)[OF returned(1,2)]] show ?thesis
    using returned(3) by simp
qed

lemma make_dimer_xyz_returns:
  assumes "make_dimer_xyz m c d a x w = (evs, w', Inr u)"
  shows "\<exists>cm M cc C dimer.
           files w (''../molecules/'' @ m) = Some (XYZ cm M) \<and>
           files w (''../clusters/'' @ c) = Some (XYZ cc C) \<and>
           combine M C d a x = Inr dimer \<and>
           writable w (output_filename m c d a) (comment_line m c d a x) \<and>
           evs = [Call m c d a x, Read (''../molecules/'' @ m), Read (''../clusters/'' @ c),
                  Write (output_filename m c d a) (comment_line m c d a x) dimer,
                  Print (''Saved: '' @ output_filename m c d a)] \<and>
           w' = w\<lparr>files := (files w)(output_filename m c d a \<mapsto>
                                       XYZ (comment_line m c d a x) dimer)\<rparr>"
  using assms
  by (auto simp: make_dimer_xyz_def then_io_def entered_def read_def raise_or_return_def
        write_atoms_def print_def writable_def
        split: option.splits stored.splits sum.splits if_splits write_outcome.splits)

lemma make_dimer_xyz_faithful:
  assumes "lval x \<noteq> (0, 0, 0)" and "make_dimer_xyz m c d a x w = (evs, w', r)"
  shows "faithful w evs w' r (job_events (m, c, d, a, x))"
proof (cases r)
  case (Inr u)
  with make_dimer_xyz_returns[of m c d a x w evs w' u] assms(2)
  show ?thesis by (auto simp: faithful_def job_events_def writable_def)
next
  case (Inl e)
  with assms show ?thesis
    by (auto simp: faithful_def make_dimer_xyz_def then_io_def entered_def read_def
        raise_or_return_def write_atoms_def print_def job_events_def combine_Inl
        writable_def
        split: option.splits stored.splits sum.splits if_splits write_outcome.splits)
qed

lemma faithful_unit: "faithful w evs w' r xs \<Longrightarrow> faithful w evs w' (map_sum id (\<lambda>_. ()) r) xs"
  by (cases r) simp_all

lemma loop_clusters_faithful:
  "loop_clusters m cs w = (evs, w', r) \<Longrightarrow> faithful w evs w' r (cluster_events m cs)"
proof (induction cs arbitrary: w evs w' r)
  case Nil
  then show ?case by (auto simp: cluster_events_def xyz_names_def faithful_def)
next
  case (Cons c cs)
  show ?case
  proof (cases "endswith c ''.xyz''")
    case False
    with Cons show ?thesis by (simp add: cluster_events_def xyz_names_def)
  next
    case True
    let ?j1 = "(m, c, distance_4, angle_0, axis_x)"
    let ?j2 = "(m, c, distance_4, angle_90, axis_z)"
    have shape: "cluster_events m (c # cs)
        = job_events ?j1 @ (job_events ?j2 @ cluster_events m cs)"
      using True by (simp add: cluster_events_def xyz_names_def pair_jobs_def)
    from Cons.prems True
    have run: "then_io (make_dimer_xyz m c distance_4 angle_0 axis_x) (\<lambda>_.
           then_io (make_dimer_xyz m c distance_4 angle_90 axis_z) (\<lambda>_.
           loop_clusters m cs)) w = (evs, w', r)" by simp
    show ?thesis unfolding shape
    proof (rule then_io_faithful[OF run])
      fix evs1 w1 r1
      assume "make_dimer_xyz m c distance_4 angle_0 axis_x w = (evs1, w1, r1)"
      then have "faithful w evs1 w1 r1 (job_events ?j1)"
        by (intro make_dimer_xyz_faithful) (simp_all add: axis_x_def)
      then show "faithful w evs1 w1 (map_sum id (\<lambda>_. ()) r1) (job_events ?j1)"
        by (rule faithful_unit)
    next
      fix evs1 w1 v evs2
      assume "(\<lambda>_. then_io (make_dimer_xyz m c distance_4 angle_90 axis_z) (\<lambda>_.
           loop_clusters m cs)) v w1 = (evs2, w', r)"
      then have run2: "then_io (make_dimer_xyz m c distance_4 angle_90 axis_z) (\<lambda>_.
           loop_clusters m cs) w1 = (evs2, w', r)" by simp
      show "faithful w1 evs2 w' r (job_events ?j2 @ cluster_events m cs)"
      proof (rule then_io_faithful[OF run2])
        fix evs1 w2 r1
        assume "make_dimer_xyz m c distance_4 angle_90 axis_z w1 = (evs1, w2, r1)"
        then have "faithful w1 evs1 w2 r1 (job_events ?j2)"
          by (intro make_dimer_xyz_faithful) (simp_all add: axis_z_def)
        then show "faithful w1 evs1 w2 (map_sum id (\<lambda>_. ()) r1) (job_events ?j2)"
          by (rule faithful_unit)
      next
        fix evs1 w2 v evs3
        assume "loop_clusters m cs w2 = (evs3, w', r)"
        then show "faithful w2 evs3 w' r (cluster_events m cs)" by (rule Cons.IH)
      qed
    qed
  qed
qed

lemma listdir_faithful:
  "listdir p w = (evs, w', r) \<Longrightarrow> faithful w evs w' (map_sum id (\<lambda>_. ()) r) [Listdir p]"
  by (auto simp: listdir_def faithful_def split: option.splits)

lemma listdir_returns: "listdir p w = (evs, w', Inr names) \<Longrightarrow> w' = w \<and> names = listing w p"
  by (auto simp: listdir_def listing_def split: option.splits)

lemma faithful_dirs: "faithful w evs w' r xs \<Longrightarrow> dirs w' = dirs w"
  by (simp add: faithful_def dirs_replay)

lemma loop_molecules_faithful:
  "loop_molecules ms w = (evs, w', r) \<Longrightarrow>
   faithful w evs w' r (molecule_events ms (listing w clusters_dir))"
proof (induction ms arbitrary: w evs w' r)
  case Nil
  then show ?case by (auto simp: molecule_events_def xyz_names_def faithful_def)
next
  case (Cons m ms)
  show ?case
  proof (cases "endswith m ''.xyz''")
    case False
    with Cons show ?thesis by (simp add: molecule_events_def xyz_names_def)
  next
    case True
    let ?cs = "listing w clusters_dir"
    have shape: "molecule_events (m # ms) ?cs =
        [Listdir clusters_dir] @ (cluster_events m ?cs @ molecule_events ms ?cs)"
      using True by (simp add: molecule_events_def xyz_names_def)
    from Cons.prems True
    have run: "then_io (listdir clusters_dir) (\<lambda>cluster_files.
           then_io (loop_clusters m cluster_files) (\<lambda>_. loop_molecules ms)) w = (evs, w', r)"
      by simp
    show ?thesis unfolding shape
    proof (rule then_io_faithful[OF run])
      fix evs1 w1 r1
      assume "listdir clusters_dir w = (evs1, w1, r1)"
      then show "faithful w evs1 w1 (map_sum id (\<lambda>_. ()) r1) [Listdir clusters_dir]"
        by (rule listdir_faithful)
    next
      fix evs1 w1 v evs2
      assume l: "listdir clusters_dir w = (evs1, w1, Inr v)"
        and "(\<lambda>cluster_files. then_io (loop_clusters m cluster_files) (\<lambda>_. loop_molecules ms))
               v w1 = (evs2, w', r)"
      then have run2: "then_io (loop_clusters m ?cs) (\<lambda>_. loop_molecules ms) w = (evs2, w', r)"
        using listdir_returns[OF l] by simp
      have w1: "w1 = w" using listdir_returns[OF l] by simp
      show "faithful w1 evs2 w' r (cluster_events m ?cs @ molecule_events ms ?cs)"
        unfolding w1
      proof (rule then_io_faithful[OF run2])
        fix evs1 w2 r1
        assume "loop_clusters m ?cs w = (evs1, w2, r1)"
        then have "faithful w evs1 w2 r1 (cluster_events m ?cs)"
          by (rule loop_clusters_faithful)
        then show "faithful w evs1 w2 (map_sum id (\<lambda>_. ()) r1) (cluster_events m ?cs)"
          by (rule faithful_unit)
      next
        fix evs1 w2 v evs3
        assume a: "loop_clusters m ?cs w = (evs1, w2, Inr v)"
          and b: "loop_molecules ms w2 = (evs3, w', r)"
        have "listing w2 clusters_dir = ?cs"
          using faithful_dirs[OF loop_clusters_faithful[OF a]] by (simp add: listing_def)
        with Cons.IH[OF b] show "faithful w2 evs3 w' r (molecule_events ms ?cs)" by simp
      qed
    qed
  qed
qed

lemma main_faithful:
  assumes "main w = (evs, w', r)"
  shows "faithful w evs w' r (main_events w)"
proof -
  have shape: "main_events w = [Listdir molecules_dir] @
      molecule_events (listing w molecules_dir) (listing w clusters_dir)"
    by (simp add: main_events_def)
  from assms have run: "then_io (listdir molecules_dir) loop_molecules w = (evs, w', r)"
    by (simp add: main_def)
  show ?thesis unfolding shape
  proof (rule then_io_faithful[OF run])
    fix evs1 w1 r1
    assume "listdir molecules_dir w = (evs1, w1, r1)"
    then show "faithful w evs1 w1 (map_sum id (\<lambda>_. ()) r1) [Listdir molecules_dir]"
      by (rule listdir_faithful)
  next
    fix evs1 w1 v evs2
    assume l: "listdir molecules_dir w = (evs1, w1, Inr v)"
      and b: "loop_molecules v w1 = (evs2, w', r)"
    from listdir_returns[OF l] b
    have "loop_molecules (listing w molecules_dir) w = (evs2, w', r)" and "w1 = w" by simp_all
    from loop_molecules_faithful[OF this(1)] this(2)
    show "faithful w1 evs2 w' r
            (molecule_events (listing w molecules_dir) (listing w clusters_dir))"
      by simp
  qed
qed

subsection \<open>What the expected trace holds\<close>

lemma invocations_job_events: "invocations (job_events j) = [j]"
  by (cases j) (simp add: job_events_def)

lemma written_job_events: "written (job_events j) = [job_output j]"
  by (cases j) (simp add: job_events_def)

lemma read_paths_job_events: "read_paths (job_events j) = job_reads j"
  by (cases j) (simp add: job_events_def)

lemma listed_job_events: "listed (job_events j) = []"
  by (cases j) (simp add: job_events_def)

lemma invocations_jobs_of_names:
  "invocations (concat (map (\<lambda>c. concat (map job_events (pair_jobs m c))) ns))
     = concat (map (pair_jobs m) ns)"
  by (induction ns) (simp_all add: invocations_append invocations_job_events pair_jobs_def)

lemma invocations_cluster_events:
  "invocations (cluster_events m cs) = concat (map (pair_jobs m) (xyz_names cs))"
  by (simp add: cluster_events_def invocations_jobs_of_names)

lemma invocations_of_molecules:
  "invocations (concat (map (\<lambda>m. Listdir clusters_dir # cluster_events m cs) ns))
     = concat (map (\<lambda>m. concat (map (\<lambda>c. pair_jobs m c) (xyz_names cs))) ns)"
  by (induction ns) (simp_all add: invocations_append invocations_cluster_events)

lemma invocations_main_events:
  "invocations (main_events w) = all_jobs (listing w molecules_dir) (listing w clusters_dir)"
  by (simp add: main_events_def molecule_events_def all_jobs_def invocations_of_molecules)

lemma written_jobs_of_names:
  "written (concat (map (\<lambda>c. concat (map job_events (pair_jobs m c))) ns))
     = map job_output (concat (map (pair_jobs m) ns))"
  by (induction ns) (simp_all add: written_append written_job_events pair_jobs_def)

lemma written_cluster_events:
  "written (cluster_events m cs) = map job_output (concat (map (pair_jobs m) (xyz_names cs)))"
  by (simp add: cluster_events_def written_jobs_of_names)

lemma written_of_molecules:
  "written (concat (map (\<lambda>m. Listdir clusters_dir # cluster_events m cs) ns))
     = map job_output
         (concat (map (\<lambda>m. concat (map (\<lambda>c. pair_jobs m c) (xyz_names cs))) ns))"
  by (induction ns) (simp_all add: written_append written_cluster_events)

lemma written_main_events:
  "written (main_events w)
     = map job_output (all_jobs (listing w molecules_dir) (listing w clusters_dir))"
  by (simp add: main_events_def molecule_events_def all_jobs_def written_of_molecules)

lemma read_paths_jobs_of_names:
  "read_paths (concat (map (\<lambda>c. concat (map job_events (pair_jobs m c))) ns))
     = concat (map job_reads (concat (map (pair_jobs m) ns)))"
  by (induction ns) (simp_all add: read_paths_append read_paths_job_events pair_jobs_def)

lemma read_paths_cluster_events:
  "read_paths (cluster_events m cs) = concat (map job_reads (concat (map (pair_jobs m) (xyz_names cs))))"
  by (simp add: cluster_events_def read_paths_jobs_of_names)

lemma read_paths_of_molecules:
  "read_paths (concat (map (\<lambda>m. Listdir clusters_dir # cluster_events m cs) ns))
     = concat (map job_reads
         (concat (map (\<lambda>m. concat (map (\<lambda>c. pair_jobs m c) (xyz_names cs))) ns)))"
  by (induction ns) (simp_all add: read_paths_append read_paths_cluster_events)

lemma read_paths_main_events:
  "read_paths (main_events w)
     = concat (map job_reads (all_jobs (listing w molecules_dir) (listing w clusters_dir)))"
  by (simp add: main_events_def molecule_events_def all_jobs_def read_paths_of_molecules)

lemma listed_jobs_of_names:
  "listed (concat (map (\<lambda>c. concat (map job_events (pair_jobs m c))) ns)) = []"
  by (induction ns) (simp_all add: listed_append listed_job_events pair_jobs_def)

lemma listed_cluster_events: "listed (cluster_events m cs) = []"
  by (simp add: cluster_events_def listed_jobs_of_names)

lemma listed_of_molecules:
  "listed (concat (map (\<lambda>m. Listdir clusters_dir # cluster_events m cs) ns))
     = map (\<lambda>m. clusters_dir) ns"
  by (induction ns) (simp_all add: listed_append listed_cluster_events)

lemma listed_main_events:
  "listed (main_events w)
     = molecules_dir # map (\<lambda>m. clusters_dir) (xyz_names (listing w molecules_dir))"
  by (simp add: main_events_def molecule_events_def listed_of_molecules)

lemma prefix_invocations: "prefix xs ys \<Longrightarrow> prefix (invocations xs) (invocations ys)"
  by (auto simp: prefix_def invocations_append)

lemma prefix_read_paths: "prefix xs ys \<Longrightarrow> prefix (read_paths xs) (read_paths ys)"
  by (auto simp: prefix_def read_paths_append)

lemma prefix_listed: "prefix xs ys \<Longrightarrow> prefix (listed xs) (listed ys)"
  by (auto simp: prefix_def listed_append)

lemma all_jobs_accepted:
  "j \<in> set (all_jobs ms cs) \<Longrightarrow>
     fst (job_pair j) \<in> set ms \<and> snd (job_pair j) \<in> set cs \<and>
     endswith (fst (job_pair j)) ''.xyz'' \<and> endswith (snd (job_pair j)) ''.xyz''"
  by (auto simp: all_jobs_def xyz_names_def pair_jobs_def)

lemma all_jobs_pairs:
  "job_pair ` set (all_jobs ms cs) = set (xyz_names ms) \<times> set (xyz_names cs)"
  by (auto simp: all_jobs_def pair_jobs_def image_iff)

subsection \<open>Reading results off a faithful run\<close>

lemma written_mem: "p \<in> set (written evs) \<Longrightarrow> \<exists>c s. Write p c s \<in> set evs"
  by (induction evs rule: written.induct) auto

lemma main_first_event:
  assumes "main w = (evs, w', r)"
  shows "\<exists>rest. evs = Listdir molecules_dir # rest"
  using assms unfolding main_def
  by (cases rule: then_io_cases) (auto simp: listdir_def)

lemma main_empty_listing:
  assumes "dirs w molecules_dir = Some []"
  shows "main w = ([Listdir molecules_dir], w, Inr ())"
  using assms by (simp add: main_def then_io_def listdir_def)

lemma job_reads_accepted:
  assumes "p \<in> set (concat (map job_reads (all_jobs ms cs)))"
  shows "\<exists>f. endswith f ''.xyz'' \<and> (p = ''../molecules/'' @ f \<or> p = ''../clusters/'' @ f)"
proof -
  from assms obtain j where j: "j \<in> set (all_jobs ms cs)" and p: "p \<in> set (job_reads j)"
    by auto
  obtain m c d a x where "j = (m, c, d, a, x)" by (cases j)
  with all_jobs_accepted[OF j] p show ?thesis by auto
qed

lemma collapse3: "snd (snd t) = r \<Longrightarrow> t = (fst t, fst (snd t), r)"
  by (cases t) auto

subsection \<open>When a job and a run complete\<close>

lemma make_dimer_xyz_completes:
  assumes "files w (''../molecules/'' @ m) = Some (XYZ cm M)"
    and "files w (''../clusters/'' @ c) = Some (XYZ cc C)"
    and "lval x \<noteq> (0, 0, 0)"
    and "writable w (output_filename m c d a) (comment_line m c d a x)"
  shows "\<exists>dimer.
           make_dimer_xyz m c d a x w
             = ([Call m c d a x, Read (''../molecules/'' @ m), Read (''../clusters/'' @ c),
                 Write (output_filename m c d a) (comment_line m c d a x) dimer,
                 Print (''Saved: '' @ output_filename m c d a)],
                w\<lparr>files := (files w)(output_filename m c d a \<mapsto>
                                       XYZ (comment_line m c d a x) dimer)\<rparr>, Inr ())"
proof -
  from assms(3) obtain dimer where "combine M C d a x = Inr dimer"
    by (auto simp: combine_Inr)
  with assms(1,2,4)
  have "make_dimer_xyz m c d a x w
      = ([Call m c d a x, Read (''../molecules/'' @ m), Read (''../clusters/'' @ c),
          Write (output_filename m c d a) (comment_line m c d a x) dimer,
          Print (''Saved: '' @ output_filename m c d a)],
         w\<lparr>files := (files w)(output_filename m c d a \<mapsto>
                                    XYZ (comment_line m c d a x) dimer)\<rparr>, Inr ())"
    by (simp add: make_dimer_xyz_def then_io_def entered_def read_def raise_or_return_def
        write_atoms_def print_def writable_def)
  then show ?thesis by blast
qed

lemma make_dimer_xyz_writer_fails:
  assumes "files w (''../molecules/'' @ m) = Some (XYZ cm M)"
    and "files w (''../clusters/'' @ c) = Some (XYZ cc C)"
    and "lval x \<noteq> (0, 0, 0)"
    and "writing w (output_filename m c d a) (comment_line m c d a x) = WriterFails"
  shows "\<exists>dimer.
           make_dimer_xyz m c d a x w
             = ([Call m c d a x, Read (''../molecules/'' @ m), Read (''../clusters/'' @ c),
                 Write (output_filename m c d a) (comment_line m c d a x) dimer],
                w\<lparr>files := (files w)(output_filename m c d a \<mapsto> Unparsable)\<rparr>,
                Inl (WriteError (output_filename m c d a)))"
proof -
  from assms(3) obtain dimer where "combine M C d a x = Inr dimer"
    by (auto simp: combine_Inr)
  with assms(1,2,4)
  have "make_dimer_xyz m c d a x w
      = ([Call m c d a x, Read (''../molecules/'' @ m), Read (''../clusters/'' @ c),
          Write (output_filename m c d a) (comment_line m c d a x) dimer],
         w\<lparr>files := (files w)(output_filename m c d a \<mapsto> Unparsable)\<rparr>,
         Inl (WriteError (output_filename m c d a)))"
    by (simp add: make_dimer_xyz_def then_io_def entered_def read_def raise_or_return_def
        write_atoms_def)
  then show ?thesis by blast
qed

lemma make_dimer_xyz_parse_error:
  assumes "files w (''../molecules/'' @ m) = Some (XYZ cm M)"
    and "files w (''../clusters/'' @ c) = Some Unparsable"
  shows "make_dimer_xyz m c d a x w
           = ([Call m c d a x, Read (''../molecules/'' @ m), Read (''../clusters/'' @ c)], w,
              Inl (ParseError (''../clusters/'' @ c)))"
  using assms
  by (simp add: make_dimer_xyz_def then_io_def entered_def read_def)

lemma then_io_returns:
  "f w = (evs1, w1, Inr v) \<Longrightarrow> g v w1 = (evs2, w2, r) \<Longrightarrow>
   then_io f g w = (evs1 @ evs2, w2, r)"
  by (simp add: then_io_def)

lemma then_io_raises:
  "f w = (evs1, w1, Inl e) \<Longrightarrow> then_io f g w = (evs1, w1, Inl e)"
  by (simp add: then_io_def)

lemma readable_after_write:
  "readable w p \<Longrightarrow> readable (w\<lparr>files := (files w)(q \<mapsto> XYZ c s)\<rparr>) p"
  by (simp add: readable_def)

lemma loop_clusters_completes:
  assumes "readable w (''../molecules/'' @ m)"
    and "\<forall>c \<in> set (xyz_names cs).
           readable w (''../clusters/'' @ c) \<and>
           writable w (output_filename m c distance_4 angle_0)
             (comment_line m c distance_4 angle_0 axis_x) \<and>
           writable w (output_filename m c distance_4 angle_90)
             (comment_line m c distance_4 angle_90 axis_z)"
  shows "\<exists>evs w'. loop_clusters m cs w = (evs, w', Inr ()) \<and>
           writing w' = writing w \<and> dirs w' = dirs w \<and> (\<forall>p. readable w p \<longrightarrow> readable w' p)"
  using assms
proof (induction cs arbitrary: w)
  case Nil
  then show ?case by simp
next
  case (Cons c cs)
  show ?case
  proof (cases "endswith c ''.xyz''")
    case False
    with Cons.prems have "\<exists>evs w'. loop_clusters m cs w = (evs, w', Inr ()) \<and>
        writing w' = writing w \<and> dirs w' = dirs w \<and> (\<forall>p. readable w p \<longrightarrow> readable w' p)"
      by (intro Cons.IH) (simp_all add: xyz_names_def)
    with False show ?thesis by simp
  next
    case True
    from Cons.prems(1) obtain cm M where M: "files w (''../molecules/'' @ m) = Some (XYZ cm M)"
      by (auto simp: readable_def)
    from Cons.prems(2) True obtain cc C where
      C: "files w (''../clusters/'' @ c) = Some (XYZ cc C)"
      and ok1: "writable w (output_filename m c distance_4 angle_0)
             (comment_line m c distance_4 angle_0 axis_x)"
      and ok2: "writable w (output_filename m c distance_4 angle_90)
             (comment_line m c distance_4 angle_90 axis_z)"
      by (auto simp: xyz_names_def readable_def)
    have x: "lval axis_x \<noteq> (0, 0, 0)" and z: "lval axis_z \<noteq> (0, 0, 0)"
      by (simp_all add: axis_x_def axis_z_def)
    from make_dimer_xyz_completes[OF M C x ok1] obtain evs1 dimer1 where
      one: "make_dimer_xyz m c distance_4 angle_0 axis_x w = (evs1,
              w\<lparr>files := (files w)(output_filename m c distance_4 angle_0 \<mapsto>
                XYZ (comment_line m c distance_4 angle_0 axis_x) dimer1)\<rparr>, Inr ())"
      (is "_ = (_, ?w1, _)")
      by blast
    have keep1: "readable ?w1 p" if "readable w p" for p
      using that by (rule readable_after_write)
    from keep1[OF Cons.prems(1)] obtain cm' M' where
      M': "files ?w1 (''../molecules/'' @ m) = Some (XYZ cm' M')"
      by (auto simp: readable_def)
    have "readable w (''../clusters/'' @ c)" using C by (simp add: readable_def)
    from keep1[OF this] obtain cc' C' where
      C': "files ?w1 (''../clusters/'' @ c) = Some (XYZ cc' C')"
      by (auto simp: readable_def)
    have ok2': "writable ?w1 (output_filename m c distance_4 angle_90)
             (comment_line m c distance_4 angle_90 axis_z)"
      using ok2 by (simp add: writable_def)
    from make_dimer_xyz_completes[OF M' C' z ok2'] obtain evs2 dimer2 where
      two: "make_dimer_xyz m c distance_4 angle_90 axis_z ?w1 = (evs2,
              ?w1\<lparr>files := (files ?w1)(output_filename m c distance_4 angle_90 \<mapsto>
                XYZ (comment_line m c distance_4 angle_90 axis_z) dimer2)\<rparr>, Inr ())"
      (is "_ = (_, ?w2, _)")
      by blast
    have keep2: "readable ?w2 p" if "readable w p" for p
      using keep1[OF that] by (rule readable_after_write)
    have "\<exists>evs w'. loop_clusters m cs ?w2 = (evs, w', Inr ()) \<and>
        writing w' = writing ?w2 \<and> dirs w' = dirs ?w2 \<and>
        (\<forall>p. readable ?w2 p \<longrightarrow> readable w' p)"
    proof (rule Cons.IH)
      show "readable ?w2 (''../molecules/'' @ m)" using Cons.prems(1) by (rule keep2)
      show "\<forall>c \<in> set (xyz_names cs).
           readable ?w2 (''../clusters/'' @ c) \<and>
           writable ?w2 (output_filename m c distance_4 angle_0)
             (comment_line m c distance_4 angle_0 axis_x) \<and>
           writable ?w2 (output_filename m c distance_4 angle_90)
             (comment_line m c distance_4 angle_90 axis_z)"
        using Cons.prems(2) keep2 by (simp add: xyz_names_def writable_def)
    qed
    then obtain evs3 w3 where three: "loop_clusters m cs ?w2 = (evs3, w3, Inr ())"
      and w3: "writing w3 = writing w" "dirs w3 = dirs w" "\<forall>p. readable ?w2 p \<longrightarrow> readable w3 p"
      by auto
    have "then_io (make_dimer_xyz m c distance_4 angle_0 axis_x) (\<lambda>_.
           then_io (make_dimer_xyz m c distance_4 angle_90 axis_z) (\<lambda>_.
           loop_clusters m cs)) w = (evs1 @ (evs2 @ evs3), w3, Inr ())"
    proof (rule then_io_returns[where f = "make_dimer_xyz m c distance_4 angle_0 axis_x", OF one])
      show "then_io (make_dimer_xyz m c distance_4 angle_90 axis_z) (\<lambda>_. loop_clusters m cs) ?w1
          = (evs2 @ evs3, w3, Inr ())"
        by (rule then_io_returns[where f = "make_dimer_xyz m c distance_4 angle_90 axis_z"
              and g = "\<lambda>_. loop_clusters m cs", OF two three])
    qed
    then have "loop_clusters m (c # cs) w = (evs1 @ (evs2 @ evs3), w3, Inr ())"
      using True by simp
    moreover have "\<forall>p. readable w p \<longrightarrow> readable w3 p" using w3(3) keep2 by blast
    ultimately show ?thesis using w3(1,2) by blast
  qed
qed

lemma loop_clusters_no_names: "xyz_names cs = [] \<Longrightarrow> loop_clusters m cs w = ([], w, Inr ())"
  by (induction cs) (auto simp: xyz_names_def split: if_splits)

lemma loop_molecules_completes:
  assumes "xyz_names ms \<noteq> [] \<longrightarrow> dirs w clusters_dir \<noteq> None"
    and "\<forall>j \<in> set (all_jobs ms (listing w clusters_dir)).
           (\<forall>p \<in> set (job_reads j). readable w p) \<and> writable w (job_output j) (job_comment j)"
  shows "\<exists>evs w'. loop_molecules ms w = (evs, w', Inr ())"
  using assms
proof (induction ms arbitrary: w)
  case Nil
  then show ?case by simp
next
  case (Cons m ms)
  let ?cs = "listing w clusters_dir"
  show ?case
  proof (cases "endswith m ''.xyz''")
    case False
    with Cons.prems have "\<exists>evs w'. loop_molecules ms w = (evs, w', Inr ())"
      by (intro Cons.IH) (simp_all add: xyz_names_def all_jobs_def)
    with False show ?thesis by simp
  next
    case True
    with Cons.prems(1) have listed: "dirs w clusters_dir = Some ?cs"
      by (auto simp: xyz_names_def listing_def)
    have jobs: "all_jobs (m # ms) ?cs
        = concat (map (pair_jobs m) (xyz_names ?cs)) @ all_jobs ms ?cs"
      using True by (simp add: all_jobs_def xyz_names_def)
    show ?thesis
    proof (cases "xyz_names ?cs = []")
      case True
      note none = this
      have "loop_clusters m ?cs w = ([], w, Inr ())"
        using none by (rule loop_clusters_no_names)
      moreover have "\<exists>evs w'. loop_molecules ms w = (evs, w', Inr ())"
      proof (rule Cons.IH)
        show "xyz_names ms \<noteq> [] \<longrightarrow> dirs w clusters_dir \<noteq> None"
          using listed by simp
        show "\<forall>j \<in> set (all_jobs ms ?cs).
           (\<forall>p \<in> set (job_reads j). readable w p) \<and>
           writable w (job_output j) (job_comment j)"
          using none by (simp add: all_jobs_def)
      qed
      ultimately show ?thesis
        using \<open>endswith m ''.xyz''\<close> listed by (auto simp: then_io_def listdir_def)
    next
      case False
      then obtain c0 where c0: "c0 \<in> set (xyz_names ?cs)" by (cases "xyz_names ?cs") auto
      have first: "\<forall>c \<in> set (xyz_names ?cs).
           readable w (''../molecules/'' @ m) \<and>
           readable w (''../clusters/'' @ c) \<and>
           writable w (output_filename m c distance_4 angle_0)
             (comment_line m c distance_4 angle_0 axis_x) \<and>
           writable w (output_filename m c distance_4 angle_90)
             (comment_line m c distance_4 angle_90 axis_z)"
      proof (intro ballI)
        fix c
        assume c: "c \<in> set (xyz_names ?cs)"
        have j1: "(m, c, distance_4, angle_0, axis_x) \<in> set (all_jobs (m # ms) ?cs)"
          and j2: "(m, c, distance_4, angle_90, axis_z) \<in> set (all_jobs (m # ms) ?cs)"
          using c unfolding jobs by (auto simp: pair_jobs_def)
        from Cons.prems(2)[THEN bspec, OF j1] Cons.prems(2)[THEN bspec, OF j2]
        show "readable w (''../molecules/'' @ m) \<and>
           readable w (''../clusters/'' @ c) \<and>
           writable w (output_filename m c distance_4 angle_0)
             (comment_line m c distance_4 angle_0 axis_x) \<and>
           writable w (output_filename m c distance_4 angle_90)
             (comment_line m c distance_4 angle_90 axis_z)"
          by simp
      qed
      with c0 have "readable w (''../molecules/'' @ m)" by blast
      from loop_clusters_completes[OF this, of ?cs] first obtain evs1 w1 where
        one: "loop_clusters m ?cs w = (evs1, w1, Inr ())"
        and w1: "writing w1 = writing w" "dirs w1 = dirs w"
          "\<forall>p. readable w p \<longrightarrow> readable w1 p"
        by blast
      have same: "listing w1 clusters_dir = ?cs" using w1(2) by (simp add: listing_def)
      have "\<exists>evs w'. loop_molecules ms w1 = (evs, w', Inr ())"
      proof (rule Cons.IH)
        show "xyz_names ms \<noteq> [] \<longrightarrow> dirs w1 clusters_dir \<noteq> None"
          using listed w1(2) by simp
        show "\<forall>j \<in> set (all_jobs ms (listing w1 clusters_dir)).
           (\<forall>p \<in> set (job_reads j). readable w1 p) \<and>
           writable w1 (job_output j) (job_comment j)"
          using Cons.prems(2) w1 unfolding same jobs by (auto simp: writable_def)
      qed
      then obtain evs2 w2 where two: "loop_molecules ms w1 = (evs2, w2, Inr ())" by blast
      have ld: "listdir clusters_dir w = ([Listdir clusters_dir], w, Inr ?cs)"
        using listed by (simp add: listdir_def)
      have inner: "then_io (loop_clusters m ?cs) (\<lambda>_. loop_molecules ms) w
          = (evs1 @ evs2, w2, Inr ())"
        by (rule then_io_returns[where f = "loop_clusters m ?cs"
              and g = "\<lambda>_. loop_molecules ms", OF one two])
      have "then_io (listdir clusters_dir) (\<lambda>cluster_files.
           then_io (loop_clusters m cluster_files) (\<lambda>_. loop_molecules ms)) w
          = ([Listdir clusters_dir] @ (evs1 @ evs2), w2, Inr ())"
        by (rule then_io_returns[where f = "listdir clusters_dir"
              and g = "\<lambda>cluster_files. then_io (loop_clusters m cluster_files)
                         (\<lambda>_. loop_molecules ms)", OF ld inner])
      then have "loop_molecules (m # ms) w
          = ([Listdir clusters_dir] @ (evs1 @ evs2), w2, Inr ())"
        using \<open>endswith m ''.xyz''\<close> by simp
      then show ?thesis by blast
    qed
  qed
qed

lemma main_completes:
  assumes "ready w"
  shows "\<exists>evs w'. main w = (evs, w', Inr ())"
proof -
  from assms have listed: "dirs w molecules_dir = Some (listing w molecules_dir)"
    by (auto simp: ready_def listing_def)
  from assms have "\<exists>evs w'. loop_molecules (listing w molecules_dir) w = (evs, w', Inr ())"
    by (intro loop_molecules_completes) (simp_all add: ready_def)
  then obtain evs w' where "loop_molecules (listing w molecules_dir) w = (evs, w', Inr ())"
    by blast
  with listed have "main w = (Listdir molecules_dir # evs, w', Inr ())"
    by (simp add: main_def then_io_def listdir_def)
  then show ?thesis by blast
qed

subsection \<open>The example runs\<close>

lemma example_names:
  "output_filename ''water.xyz'' ''Ar2.xyz'' distance_4 angle_0 = ''water_Ar2_D4.0_A0.0.xyz''"
  "output_filename ''water.xyz'' ''Ar2.xyz'' distance_4 angle_90 = ''water_Ar2_D4.0_A90.0.xyz''"
  by (simp_all add: output_filename_def splitext_def rfind_def distance_4_def angle_0_def
      angle_90_def)

lemma example_jobs:
  "all_jobs (listing example_world molecules_dir) (listing example_world clusters_dir)
     = [(''water.xyz'', ''Ar2.xyz'', distance_4, angle_0, axis_x),
        (''water.xyz'', ''Ar2.xyz'', distance_4, angle_90, axis_z)]"
  by (simp add: all_jobs_def xyz_names_def listing_def example_world_def molecules_dir_def
      clusters_dir_def endswith_def pair_jobs_def)

lemma example_world_ready: "ready example_world"
  unfolding ready_def example_jobs
  by (simp add: readable_def writable_def example_world_def molecules_dir_def
      clusters_dir_def)

lemma main_example_world:
  "\<exists>evs w'. main example_world = (evs, w', Inr ())"
  using example_world_ready by (rule main_completes)

lemma example_job:
  "\<exists>evs w'. make_dimer_xyz ''water.xyz'' ''Ar2.xyz'' distance_4 angle_0 axis_x example_world
              = (evs, w', Inr ())"
proof -
  have "\<exists>dimer. make_dimer_xyz ''water.xyz'' ''Ar2.xyz'' distance_4 angle_0 axis_x example_world
      = ([Call ''water.xyz'' ''Ar2.xyz'' distance_4 angle_0 axis_x,
          Read (''../molecules/'' @ ''water.xyz''), Read (''../clusters/'' @ ''Ar2.xyz''),
          Write (output_filename ''water.xyz'' ''Ar2.xyz'' distance_4 angle_0)
            (comment_line ''water.xyz'' ''Ar2.xyz'' distance_4 angle_0 axis_x) dimer,
          Print (''Saved: '' @ output_filename ''water.xyz'' ''Ar2.xyz'' distance_4 angle_0)],
         example_world\<lparr>files := (files example_world)
           (output_filename ''water.xyz'' ''Ar2.xyz'' distance_4 angle_0 \<mapsto>
              XYZ (comment_line ''water.xyz'' ''Ar2.xyz'' distance_4 angle_0 axis_x) dimer)\<rparr>,
         Inr ())"
    by (rule make_dimer_xyz_completes[where cm = "''water''" and M = water
          and cc = "''argon dimer''" and C = Ar2])
       (simp_all add: example_world_def axis_x_def writable_def)
  then show ?thesis by blast
qed

lemma main_failing_world:
  "\<exists>evs w' c s. main failing_world = (evs, w', Inl (ParseError ''../clusters/bad.xyz'')) \<and>
     last evs = Read ''../clusters/bad.xyz'' \<and>
     Write ''water_Ar2_D4.0_A0.0.xyz'' c s \<in> set (butlast evs)"
proof -
  let ?n1 = "''water_Ar2_D4.0_A0.0.xyz''" and ?n2 = "''water_Ar2_D4.0_A90.0.xyz''"
  let ?c1 = "comment_line ''water.xyz'' ''Ar2.xyz'' distance_4 angle_0 axis_x"
  let ?c2 = "comment_line ''water.xyz'' ''Ar2.xyz'' distance_4 angle_90 axis_z"
  let ?w0 = failing_world
  have x: "lval axis_x \<noteq> (0, 0, 0)" and z: "lval axis_z \<noteq> (0, 0, 0)"
    by (simp_all add: axis_x_def axis_z_def)
  have "\<exists>dimer. make_dimer_xyz ''water.xyz'' ''Ar2.xyz'' distance_4 angle_0 axis_x ?w0
      = ([Call ''water.xyz'' ''Ar2.xyz'' distance_4 angle_0 axis_x,
          Read (''../molecules/'' @ ''water.xyz''), Read (''../clusters/'' @ ''Ar2.xyz''),
          Write (output_filename ''water.xyz'' ''Ar2.xyz'' distance_4 angle_0) ?c1 dimer,
          Print (''Saved: '' @ output_filename ''water.xyz'' ''Ar2.xyz'' distance_4 angle_0)],
         ?w0\<lparr>files := (files ?w0)
           (output_filename ''water.xyz'' ''Ar2.xyz'' distance_4 angle_0 \<mapsto> XYZ ?c1 dimer)\<rparr>,
         Inr ())"
    by (rule make_dimer_xyz_completes[where cm = "''water''" and M = water
          and cc = "''argon dimer''" and C = Ar2, OF _ _ x])
       (simp_all add: failing_world_def writable_def)
  then obtain dimer1 where one:
    "make_dimer_xyz ''water.xyz'' ''Ar2.xyz'' distance_4 angle_0 axis_x ?w0
      = ([Call ''water.xyz'' ''Ar2.xyz'' distance_4 angle_0 axis_x,
          Read ''../molecules/water.xyz'', Read ''../clusters/Ar2.xyz'',
          Write ?n1 ?c1 dimer1, Print (''Saved: '' @ ?n1)],
         ?w0\<lparr>files := (files ?w0)(?n1 \<mapsto> XYZ ?c1 dimer1)\<rparr>, Inr ())"
    (is "_ = (?e1, ?w1, _)")
    unfolding example_names by auto
  have "\<exists>dimer. make_dimer_xyz ''water.xyz'' ''Ar2.xyz'' distance_4 angle_90 axis_z ?w1
      = ([Call ''water.xyz'' ''Ar2.xyz'' distance_4 angle_90 axis_z,
          Read (''../molecules/'' @ ''water.xyz''), Read (''../clusters/'' @ ''Ar2.xyz''),
          Write (output_filename ''water.xyz'' ''Ar2.xyz'' distance_4 angle_90) ?c2 dimer,
          Print (''Saved: '' @ output_filename ''water.xyz'' ''Ar2.xyz'' distance_4 angle_90)],
         ?w1\<lparr>files := (files ?w1)
           (output_filename ''water.xyz'' ''Ar2.xyz'' distance_4 angle_90 \<mapsto> XYZ ?c2 dimer)\<rparr>,
         Inr ())"
    by (rule make_dimer_xyz_completes[where cm = "''water''" and M = water
          and cc = "''argon dimer''" and C = Ar2, OF _ _ z])
       (simp_all add: failing_world_def writable_def)
  then obtain dimer2 where two:
    "make_dimer_xyz ''water.xyz'' ''Ar2.xyz'' distance_4 angle_90 axis_z ?w1
      = ([Call ''water.xyz'' ''Ar2.xyz'' distance_4 angle_90 axis_z,
          Read ''../molecules/water.xyz'', Read ''../clusters/Ar2.xyz'',
          Write ?n2 ?c2 dimer2, Print (''Saved: '' @ ?n2)],
         ?w1\<lparr>files := (files ?w1)(?n2 \<mapsto> XYZ ?c2 dimer2)\<rparr>, Inr ())"
    (is "_ = (?e2, ?w2, _)")
    unfolding example_names by auto
  have three: "make_dimer_xyz ''water.xyz'' ''bad.xyz'' distance_4 angle_0 axis_x ?w2
      = ([Call ''water.xyz'' ''bad.xyz'' distance_4 angle_0 axis_x,
          Read (''../molecules/'' @ ''water.xyz''), Read (''../clusters/'' @ ''bad.xyz'')],
         ?w2, Inl (ParseError (''../clusters/'' @ ''bad.xyz'')))"
    (is "_ = (?e3, _, _)")
    by (rule make_dimer_xyz_parse_error[where cm = "''water''" and M = water])
       (simp_all add: failing_world_def)
  have bad: "then_io (make_dimer_xyz ''water.xyz'' ''bad.xyz'' distance_4 angle_0 axis_x) (\<lambda>_.
         then_io (make_dimer_xyz ''water.xyz'' ''bad.xyz'' distance_4 angle_90 axis_z) (\<lambda>_.
         loop_clusters ''water.xyz'' [])) ?w2
       = (?e3, ?w2, Inl (ParseError (''../clusters/'' @ ''bad.xyz'')))"
    using three by (rule then_io_raises)
  then have rest: "loop_clusters ''water.xyz'' [''bad.xyz''] ?w2
       = (?e3, ?w2, Inl (ParseError (''../clusters/'' @ ''bad.xyz'')))"
    by (simp add: endswith_def)
  have "then_io (make_dimer_xyz ''water.xyz'' ''Ar2.xyz'' distance_4 angle_0 axis_x) (\<lambda>_.
         then_io (make_dimer_xyz ''water.xyz'' ''Ar2.xyz'' distance_4 angle_90 axis_z) (\<lambda>_.
         loop_clusters ''water.xyz'' [''bad.xyz''])) ?w0
       = (?e1 @ (?e2 @ ?e3), ?w2, Inl (ParseError (''../clusters/'' @ ''bad.xyz'')))"
  proof (rule then_io_returns[where
        f = "make_dimer_xyz ''water.xyz'' ''Ar2.xyz'' distance_4 angle_0 axis_x", OF one])
    show "then_io (make_dimer_xyz ''water.xyz'' ''Ar2.xyz'' distance_4 angle_90 axis_z)
            (\<lambda>_. loop_clusters ''water.xyz'' [''bad.xyz'']) ?w1
          = (?e2 @ ?e3, ?w2, Inl (ParseError (''../clusters/'' @ ''bad.xyz'')))"
      by (rule then_io_returns[where
            f = "make_dimer_xyz ''water.xyz'' ''Ar2.xyz'' distance_4 angle_90 axis_z"
            and g = "\<lambda>_. loop_clusters ''water.xyz'' [''bad.xyz'']", OF two rest])
  qed
  then have clusters: "loop_clusters ''water.xyz'' [''Ar2.xyz'', ''bad.xyz''] ?w0
       = (?e1 @ (?e2 @ ?e3), ?w2, Inl (ParseError (''../clusters/'' @ ''bad.xyz'')))"
    by (simp add: endswith_def)
  have ld: "listdir clusters_dir ?w0
      = ([Listdir clusters_dir], ?w0, Inr [''Ar2.xyz'', ''bad.xyz''])"
    by (simp add: listdir_def failing_world_def clusters_dir_def)
  have inner: "then_io (loop_clusters ''water.xyz'' [''Ar2.xyz'', ''bad.xyz''])
        (\<lambda>_. loop_molecules []) ?w0
      = (?e1 @ (?e2 @ ?e3), ?w2, Inl (ParseError (''../clusters/'' @ ''bad.xyz'')))"
    using clusters by (rule then_io_raises)
  have "then_io (listdir clusters_dir) (\<lambda>cluster_files.
         then_io (loop_clusters ''water.xyz'' cluster_files) (\<lambda>_. loop_molecules [])) ?w0
      = ([Listdir clusters_dir] @ (?e1 @ (?e2 @ ?e3)), ?w2,
         Inl (ParseError (''../clusters/'' @ ''bad.xyz'')))"
    by (rule then_io_returns[where f = "listdir clusters_dir"
          and g = "\<lambda>cluster_files. then_io (loop_clusters ''water.xyz'' cluster_files)
                     (\<lambda>_. loop_molecules [])", OF ld inner])
  then have molecules: "loop_molecules [''water.xyz''] ?w0
      = ([Listdir clusters_dir] @ (?e1 @ (?e2 @ ?e3)), ?w2,
         Inl (ParseError (''../clusters/'' @ ''bad.xyz'')))"
    by (simp add: endswith_def)
  have lm: "listdir molecules_dir ?w0 = ([Listdir molecules_dir], ?w0, Inr [''water.xyz''])"
    by (simp add: listdir_def failing_world_def molecules_dir_def)
  have "main ?w0
      = ([Listdir molecules_dir] @ ([Listdir clusters_dir] @ (?e1 @ (?e2 @ ?e3))), ?w2,
         Inl (ParseError (''../clusters/'' @ ''bad.xyz'')))"
    unfolding main_def
    by (rule then_io_returns[where f = "listdir molecules_dir" and g = loop_molecules,
          OF lm molecules])
  then show ?thesis by (intro exI[of _ "[Listdir molecules_dir] @ ([Listdir clusters_dir] @ (?e1 @ (?e2 @ ?e3)))"] exI[of _ ?w2] exI[of _ ?c1] exI[of _ dimer1]) simp
qed

lemma clash_names:
  "output_filename ''a.xyz'' ''b_c.xyz'' distance_4 angle_0 = ''a_b_c_D4.0_A0.0.xyz''"
  "output_filename ''a_b.xyz'' ''c.xyz'' distance_4 angle_0 = ''a_b_c_D4.0_A0.0.xyz''"
  "comment_line ''a_b.xyz'' ''c.xyz'' distance_4 angle_0 axis_x
     = ''a_b + c: Distance = 4.0, Angle = 0.0, Axis = [1, 0, 0]''"
  by (simp_all add: output_filename_def comment_line_def splitext_def rfind_def distance_4_def
      angle_0_def axis_x_def)

lemma main_clash_world:
  "\<exists>evs w'. main clash_world = (evs, w', Inl (WriteError ''a_b_c_D4.0_A0.0.xyz'')) \<and>
     ''a_b_c_D4.0_A0.0.xyz'' \<in> set (written (butlast evs)) \<and>
     files w' ''a_b_c_D4.0_A0.0.xyz'' = Some Unparsable"
proof -
  let ?w0 = clash_world and ?cs = "[''c.xyz'', ''b_c.xyz'']"
  let ?n = "''a_b_c_D4.0_A0.0.xyz''"
  let ?err = "Inl (WriteError (output_filename ''a_b.xyz'' ''c.xyz'' distance_4 angle_0))
                :: error + unit"
  have x: "lval axis_x \<noteq> (0, 0, 0)" by (simp add: axis_x_def)
  have names: "xyz_names ?cs = ?cs" by (simp add: xyz_names_def endswith_def)
  have "\<exists>evs w'. loop_clusters ''a.xyz'' ?cs ?w0 = (evs, w', Inr ()) \<and>
      writing w' = writing ?w0 \<and> dirs w' = dirs ?w0 \<and>
      (\<forall>p. readable ?w0 p \<longrightarrow> readable w' p)"
  proof (rule loop_clusters_completes)
    show "readable ?w0 (''../molecules/'' @ ''a.xyz'')"
      by (simp add: readable_def clash_world_def)
    show "\<forall>c \<in> set (xyz_names ?cs).
       readable ?w0 (''../clusters/'' @ c) \<and>
       writable ?w0 (output_filename ''a.xyz'' c distance_4 angle_0)
         (comment_line ''a.xyz'' c distance_4 angle_0 axis_x) \<and>
       writable ?w0 (output_filename ''a.xyz'' c distance_4 angle_90)
         (comment_line ''a.xyz'' c distance_4 angle_90 axis_z)"
      unfolding names
      by (simp add: readable_def writable_def clash_world_def comment_line_def splitext_def
          rfind_def distance_4_def angle_0_def angle_90_def axis_x_def axis_z_def)
  qed
  then obtain evs1 w1 where one: "loop_clusters ''a.xyz'' ?cs ?w0 = (evs1, w1, Inr ())"
    and w1: "writing w1 = writing ?w0" "dirs w1 = dirs ?w0"
      "\<forall>p. readable ?w0 p \<longrightarrow> readable w1 p"
    by blast
  from loop_clusters_faithful[OF one] have "map erase evs1 = cluster_events ''a.xyz'' ?cs"
    unfolding faithful_def by simp
  then have "written evs1 = written (cluster_events ''a.xyz'' ?cs)"
    using written_erase[of evs1] by simp
  then have early: "?n \<in> set (written evs1)"
    unfolding written_cluster_events names by (simp add: pair_jobs_def clash_names)
  have "readable ?w0 (''../molecules/'' @ ''a_b.xyz'')"
    and "readable ?w0 (''../clusters/'' @ ''c.xyz'')"
    by (simp_all add: readable_def clash_world_def)
  with w1(3) obtain cm M cc C where
    M: "files w1 (''../molecules/'' @ ''a_b.xyz'') = Some (XYZ cm M)" and
    C: "files w1 (''../clusters/'' @ ''c.xyz'') = Some (XYZ cc C)"
    unfolding readable_def by blast
  have bad: "writing w1 (output_filename ''a_b.xyz'' ''c.xyz'' distance_4 angle_0)
      (comment_line ''a_b.xyz'' ''c.xyz'' distance_4 angle_0 axis_x) = WriterFails"
    unfolding w1(1) clash_names by (simp add: clash_world_def)
  from make_dimer_xyz_writer_fails[OF M C x bad] obtain dimer where
    job: "make_dimer_xyz ''a_b.xyz'' ''c.xyz'' distance_4 angle_0 axis_x w1
      = ([Call ''a_b.xyz'' ''c.xyz'' distance_4 angle_0 axis_x,
          Read (''../molecules/'' @ ''a_b.xyz''), Read (''../clusters/'' @ ''c.xyz''),
          Write (output_filename ''a_b.xyz'' ''c.xyz'' distance_4 angle_0)
            (comment_line ''a_b.xyz'' ''c.xyz'' distance_4 angle_0 axis_x) dimer],
         w1\<lparr>files := (files w1)
           (output_filename ''a_b.xyz'' ''c.xyz'' distance_4 angle_0 \<mapsto> Unparsable)\<rparr>,
         ?err)"
    (is "_ = (?e5, ?w5, _)")
    by blast
  have "then_io (make_dimer_xyz ''a_b.xyz'' ''c.xyz'' distance_4 angle_0 axis_x) (\<lambda>_.
         then_io (make_dimer_xyz ''a_b.xyz'' ''c.xyz'' distance_4 angle_90 axis_z) (\<lambda>_.
         loop_clusters ''a_b.xyz'' [''b_c.xyz''])) w1 = (?e5, ?w5, ?err)"
    using job by (rule then_io_raises)
  then have clusters2: "loop_clusters ''a_b.xyz'' ?cs w1 = (?e5, ?w5, ?err)"
    by (simp add: endswith_def)
  have ld1: "listdir clusters_dir w1 = ([Listdir clusters_dir], w1, Inr ?cs)"
    by (simp add: listdir_def w1(2) clash_world_def clusters_dir_def)
  have inner2: "then_io (loop_clusters ''a_b.xyz'' ?cs) (\<lambda>_. loop_molecules []) w1
      = (?e5, ?w5, ?err)"
    using clusters2 by (rule then_io_raises)
  have "then_io (listdir clusters_dir) (\<lambda>cluster_files.
         then_io (loop_clusters ''a_b.xyz'' cluster_files) (\<lambda>_. loop_molecules [])) w1
      = ([Listdir clusters_dir] @ ?e5, ?w5, ?err)"
    by (rule then_io_returns[where f = "listdir clusters_dir"
          and g = "\<lambda>cluster_files. then_io (loop_clusters ''a_b.xyz'' cluster_files)
                     (\<lambda>_. loop_molecules [])", OF ld1 inner2])
  then have second: "loop_molecules [''a_b.xyz''] w1
      = ([Listdir clusters_dir] @ ?e5, ?w5, ?err)"
    by (simp add: endswith_def)
  have ld0: "listdir clusters_dir ?w0 = ([Listdir clusters_dir], ?w0, Inr ?cs)"
    by (simp add: listdir_def clash_world_def clusters_dir_def)
  have inner1: "then_io (loop_clusters ''a.xyz'' ?cs) (\<lambda>_. loop_molecules [''a_b.xyz'']) ?w0
      = (evs1 @ ([Listdir clusters_dir] @ ?e5), ?w5, ?err)"
    by (rule then_io_returns[where f = "loop_clusters ''a.xyz'' ?cs"
          and g = "\<lambda>_. loop_molecules [''a_b.xyz'']", OF one second])
  have "then_io (listdir clusters_dir) (\<lambda>cluster_files.
         then_io (loop_clusters ''a.xyz'' cluster_files)
           (\<lambda>_. loop_molecules [''a_b.xyz''])) ?w0
      = ([Listdir clusters_dir] @ (evs1 @ ([Listdir clusters_dir] @ ?e5)), ?w5, ?err)"
    by (rule then_io_returns[where f = "listdir clusters_dir"
          and g = "\<lambda>cluster_files. then_io (loop_clusters ''a.xyz'' cluster_files)
                     (\<lambda>_. loop_molecules [''a_b.xyz''])", OF ld0 inner1])
  then have molecules: "loop_molecules [''a.xyz'', ''a_b.xyz''] ?w0
      = ([Listdir clusters_dir] @ (evs1 @ ([Listdir clusters_dir] @ ?e5)), ?w5, ?err)"
    by (simp add: endswith_def)
  have lm: "listdir molecules_dir ?w0
      = ([Listdir molecules_dir], ?w0, Inr [''a.xyz'', ''a_b.xyz''])"
    by (simp add: listdir_def clash_world_def molecules_dir_def)
  have run: "main ?w0
      = ([Listdir molecules_dir] @ ([Listdir clusters_dir] @ (evs1 @ ([Listdir clusters_dir] @ ?e5))),
         ?w5, ?err)"
    unfolding main_def
    by (rule then_io_returns[where f = "listdir molecules_dir" and g = loop_molecules,
          OF lm molecules])
  have "?n \<in> set (written (butlast
      ([Listdir molecules_dir] @ ([Listdir clusters_dir] @ (evs1 @ ([Listdir clusters_dir] @ ?e5))))))"
    using early by (simp add: butlast_append written_append)
  moreover have "files ?w5 ?n = Some Unparsable" by (simp add: clash_names)
  ultimately show ?thesis using run unfolding clash_names by blast
qed

section \<open>The claims about the geometry\<close>

text \<open>
  C6, amended. For every job whose monomer and cluster each have a centre of mass (a
  total mass that is not zero, so at least one atom), after the two centring steps the
  centre of mass of the monomer and the centre of mass of the cluster each lie at the
  origin, exactly in exact arithmetic.
\<close>

theorem centering_puts_com_at_origin:
  assumes "get_center_of_mass molecule \<noteq> None" and "get_center_of_mass cluster \<noteq> None"
  shows "get_center_of_mass (center molecule) = Some origin \<and>
         get_center_of_mass (center cluster) = Some origin"
  using assms com_center by blast

theorem centering_puts_com_at_origin_witness:
  "get_center_of_mass water \<noteq> None \<and> get_center_of_mass Ar2 \<noteq> None \<and>
   get_center_of_mass (center water) = Some (0, 0, 0) \<and>
   get_center_of_mass (center Ar2) = Some (0, 0, 0)"
proof -
  have m: "get_center_of_mass water \<noteq> None"
    by (simp add: get_center_of_mass_def water_def)
  have c: "get_center_of_mass Ar2 \<noteq> None"
    by (simp add: get_center_of_mass_def Ar2_def)
  from centering_puts_com_at_origin[OF m c] m c show ?thesis
    by (simp add: origin_def)
qed

text \<open>
  The claim as written, for every job, fails for a structure without atoms: its total
  mass is zero, the centre of mass is no point, and centring leaves it so.
\<close>

theorem centering_counterexample:
  "get_center_of_mass [] = None \<and> center [] = [] \<and>
   get_center_of_mass (center []) \<noteq> Some origin"
  by (simp add: get_center_of_mass_def center_def translate_def)

text \<open>
  C7, amended. For every job whose cluster has a centre of mass, whose axis is not the
  zero vector and whose rotation leaves the height of the centroid as it is (in
  particular when the angle is 0), the transforms of the combiner return and the centre
  of mass of the cluster after them lies at (0, 0, distance).
\<close>

theorem offset_when_centroid_height_is_kept:
  assumes "get_center_of_mass cluster \<noteq> None"
    and "lval axis \<noteq> (0, 0, 0)"
    and "fval angle = 0 \<or>
         (\<exists>cluster2. rotate_atoms (center cluster) (lval axis) (fval angle) = Inr cluster2 \<and>
            map_option zcoord (get_center_of_mass cluster2)
              = map_option zcoord (get_center_of_mass (center cluster)))"
  shows "\<exists>cluster3. transform_cluster cluster distance angle axis = Inr cluster3 \<and>
           get_center_of_mass cluster3 = Some (0, 0, fval distance)"
proof -
  from assms(1) obtain c0 where "get_center_of_mass cluster = Some c0" by auto
  then have centred: "get_center_of_mass (center cluster) = Some origin" by (rule com_center)
  let ?cluster2 = "rotated_rhr (lval axis) (fval angle) (center cluster)"
  have turned: "rotate_atoms (center cluster) (lval axis) (fval angle) = Inr ?cluster2"
    using assms(2) by (simp add: rotate_atoms_Inr)
  from centred have "get_center_of_mass ?cluster2 = Some origin"
    by (rule com_rotated_centered)
  then have "get_center_of_mass (translate ?cluster2 (Some (0, 0, fval distance)))
      = Some (0, 0, fval distance)" by (rule com_translate_centered)
  with turned show ?thesis by (simp add: transform_cluster_def)
qed

theorem offset_when_centroid_height_is_kept_witness:
  "get_center_of_mass Ar2 \<noteq> None \<and> lval axis_x \<noteq> (0, 0, 0) \<and> fval angle_0 = 0 \<and>
   (\<exists>cluster3. transform_cluster Ar2 distance_4 angle_0 axis_x = Inr cluster3 \<and>
      get_center_of_mass cluster3 = Some (0, 0, 4))"
proof -
  have c: "get_center_of_mass Ar2 \<noteq> None"
    by (simp add: get_center_of_mass_def Ar2_def)
  have x: "lval axis_x \<noteq> (0, 0, 0)" by (simp add: axis_x_def)
  have zero: "fval angle_0 = 0" by (simp add: angle_0_def)
  then have a: "fval angle_0 = 0 \<or>
         (\<exists>cluster2. rotate_atoms (center Ar2) (lval axis_x) (fval angle_0) = Inr cluster2 \<and>
            map_option zcoord (get_center_of_mass cluster2)
              = map_option zcoord (get_center_of_mass (center Ar2)))"
    by (rule disjI1)
  from offset_when_centroid_height_is_kept[OF c x a, of distance_4] c x zero show ?thesis
    by (simp add: distance_4_def)
qed

text \<open>
  The claim as written, with angle 0 named as covered, fails twice at angle 0: for a
  cluster without atoms, which the transforms return as it is, without a centre of
  mass; and for the zero vector as axis, where the rotation raises and there is no
  transformed cluster.
\<close>

theorem offset_counterexample:
  "fval angle_0 = 0 \<and>
   transform_cluster [] distance_4 angle_0 axis_x = Inr [] \<and>
   get_center_of_mass [] \<noteq> Some (0, 0, fval distance_4) \<and>
   get_center_of_mass Ar2 \<noteq> None \<and>
   transform_cluster Ar2 distance_4 angle_0 \<lparr>lval = (0, 0, 0), lstr = ''[0, 0, 0]''\<rparr>
     = Inl ZeroDivisionError"
  by (simp add: transform_cluster_def rotate_atoms_Inl rotate_atoms_Inr axis_x_def
      angle_0_def rotated_rhr_def center_def translate_def get_center_of_mass_def Ar2_def
      split: sum.splits)

text \<open>
  C10, amended. For every job whose cluster has a centre of mass and whose axis is not
  the zero vector, whatever the angle and the axis, the transforms of the combiner
  return and the centre of mass of the transformed cluster lies exactly at
  (0, 0, distance): the rotation is about the origin, where the centred cluster has its
  centre of mass. This holds for the angle 90 about (0, 0, 1).
\<close>

theorem offset_for_every_rotation:
  assumes "get_center_of_mass cluster \<noteq> None" and "lval axis \<noteq> (0, 0, 0)"
  shows "\<exists>cluster3. transform_cluster cluster distance angle axis = Inr cluster3 \<and>
           get_center_of_mass cluster3 = Some (0, 0, fval distance)"
proof -
  from assms(1) obtain c0 where "get_center_of_mass cluster = Some c0" by auto
  then have "get_center_of_mass (center cluster) = Some origin" by (rule com_center)
  then have "get_center_of_mass (rotated_rhr (lval axis) (fval angle) (center cluster))
      = Some origin" by (rule com_rotated_centered)
  then have "get_center_of_mass
      (translate (rotated_rhr (lval axis) (fval angle) (center cluster))
         (Some (0, 0, fval distance))) = Some (0, 0, fval distance)"
    by (rule com_translate_centered)
  with assms(2) show ?thesis by (simp add: transform_cluster_Inr)
qed

theorem offset_for_every_rotation_witness:
  "get_center_of_mass Ar2 \<noteq> None \<and> lval axis_z \<noteq> (0, 0, 0) \<and>
   (\<exists>cluster3. transform_cluster Ar2 distance_4 angle_90 axis_z = Inr cluster3 \<and>
      get_center_of_mass cluster3 = Some (0, 0, 4))"
proof -
  have c: "get_center_of_mass Ar2 \<noteq> None"
    by (simp add: get_center_of_mass_def Ar2_def)
  have x: "lval axis_z \<noteq> (0, 0, 0)" by (simp add: axis_z_def)
  from offset_for_every_rotation[OF c x, of distance_4 angle_90] c x show ?thesis
    by (simp add: distance_4_def)
qed

text \<open>
  The claim as written, for every job and every axis, fails twice: for a cluster without
  atoms under the second preset, and for the zero vector as axis, where the rotation
  raises and there is no transformed cluster.
\<close>

theorem offset_for_every_rotation_counterexample:
  "transform_cluster [] distance_4 angle_90 axis_z = Inr [] \<and>
   get_center_of_mass [] \<noteq> Some (0, 0, fval distance_4) \<and>
   transform_cluster Ar2 distance_4 angle_90 \<lparr>lval = (0, 0, 0), lstr = ''[0, 0, 0]''\<rparr>
     = Inl ZeroDivisionError"
  by (simp add: transform_cluster_def rotate_atoms_Inl rotate_atoms_Inr axis_z_def
      rotated_rhr_def center_def translate_def get_center_of_mass_def split: sum.splits)

text \<open>
  C5. For every job the combined structure is the atoms of the monomer in their order
  followed by the atoms of the cluster in their order: the symbols and the masses are
  those of the two inputs, none is dropped, and nothing but a zero axis keeps the
  combiner from returning, whatever the positions and the distance.
\<close>

theorem dimer_is_monomer_then_cluster:
  assumes "lval axis \<noteq> (0, 0, 0)"
  shows "\<exists>dimer cluster3.
           combine molecule cluster distance angle axis = Inr dimer \<and>
           transform_cluster cluster distance angle axis = Inr cluster3 \<and>
           dimer = center molecule @ cluster3 \<and>
           map symbol dimer = map symbol molecule @ map symbol cluster \<and>
           map mass dimer = map mass molecule @ map mass cluster \<and>
           length dimer = length molecule + length cluster"
  using assms
  by (simp add: combine_Inr transform_cluster_Inr center_def symbol_translate symbol_rotated
      mass_translate mass_rotated length_translate length_rotated)

theorem dimer_is_monomer_then_cluster_witness:
  "lval axis_x \<noteq> (0, 0, 0) \<and>
   (\<exists>dimer. combine Ar2 Ar2 angle_0 angle_0 axis_x = Inr dimer \<and>
      map symbol dimer = [''Ar'', ''Ar'', ''Ar'', ''Ar''] \<and> length dimer = 4)"
proof -
  have x: "lval axis_x \<noteq> (0, 0, 0)" by (simp add: axis_x_def)
  from dimer_is_monomer_then_cluster[OF x, of Ar2 Ar2 angle_0 angle_0] x show ?thesis
    by (auto simp: Ar2_def)
qed

text \<open>
  C2. In the combiner the cluster, and only the cluster, is rotated: by the angle in
  degrees about the axis through the origin, by the right-hand rule. The atoms of the
  monomer in the result are the monomer translated; the atoms of the cluster are the
  centred cluster rotated and then moved along z.
\<close>

theorem cluster_is_rotated_monomer_is_not:
  assumes "lval axis \<noteq> (0, 0, 0)"
  shows "\<exists>dimer.
           combine molecule cluster distance angle axis = Inr dimer \<and>
           rotate_atoms (center cluster) (lval axis) (fval angle)
             = Inr (rotated_rhr (lval axis) (fval angle) (center cluster)) \<and>
           drop (length molecule) dimer
             = translate (rotated_rhr (lval axis) (fval angle) (center cluster))
                 (Some (0, 0, fval distance)) \<and>
           take (length molecule) dimer
             = translate molecule (map_option vneg (get_center_of_mass molecule))"
  using assms
  by (simp add: combine_Inr rotate_atoms_Inr length_center) (simp add: center_def)

theorem cluster_is_rotated_monomer_is_not_witness:
  "lval axis_z \<noteq> (0, 0, 0) \<and>
   (\<exists>dimer. combine water Ar2 distance_4 angle_90 axis_z = Inr dimer \<and>
      map position (drop 3 dimer) = [Some (0, - 1, 4), Some (0, 1, 4)] \<and>
      map position (take 3 dimer)
        = [Some (- (1 / 18), - (1 / 18), 0), Some (17 / 18, - (1 / 18), 0),
           Some (- (1 / 18), 17 / 18, 0)])"
proof -
  have x: "lval axis_z \<noteq> (0, 0, 0)" by (simp add: axis_z_def)
  have quarter: "radians 90 = pi / 2" by (simp add: radians_def)
  have three: "length water = 3" by (simp add: water_def)
  from cluster_is_rotated_monomer_is_not[OF x, of water Ar2 distance_4 angle_90]
  obtain dimer where d: "combine water Ar2 distance_4 angle_90 axis_z = Inr dimer"
    and c: "drop (length water) dimer
             = translate (rotated_rhr (lval axis_z) (fval angle_90) (center Ar2))
                 (Some (0, 0, fval distance_4))"
    and m: "take (length water) dimer
             = translate water (map_option vneg (get_center_of_mass water))"
    by blast
  have p1: "map position (drop 3 dimer) = [Some (0, - 1, 4), Some (0, 1, 4)]"
    unfolding c[unfolded three]
    by (simp add: translate_def rotated_rhr_def center_def get_center_of_mass_def Ar2_def
        axis_z_def angle_90_def distance_4_def quarter unit_vector_def norm3_def
        rotation_rhr_def Let_def)
  have p2: "map position (take 3 dimer)
        = [Some (- (1 / 18), - (1 / 18), 0), Some (17 / 18, - (1 / 18), 0),
           Some (- (1 / 18), 17 / 18, 0)]"
    unfolding m[unfolded three]
    by (simp add: translate_def get_center_of_mass_def water_def)
  show ?thesis
    by (rule conjI[OF x]) (rule exI[of _ dimer], rule conjI[OF d], rule conjI[OF p1 p2])
qed

section \<open>The claims about the run\<close>

text \<open>
  C1. Where nothing can fail (the directories can be listed, every accepted file parses,
  every output file can be written) the run completes, and in it the combiner is
  invoked, for every accepted pair of a molecule file and a cluster file, exactly twice:
  with distance 4.0, angle 0.0, axis (1, 0, 0) and with distance 4.0, angle 90.0, axis
  (0, 0, 1), pairs in listing order. Every invocation writes one file, named by
  \<open>output_filename\<close> from the base names, the distance and the angle; the file is there
  after the run, and the two names of a pair differ.
\<close>

theorem two_jobs_per_accepted_pair:
  assumes "ready w"
  shows "\<exists>evs w'.
           main w = (evs, w', Inr ()) \<and>
           invocations evs = all_jobs (listing w molecules_dir) (listing w clusters_dir) \<and>
           written evs = map job_output (invocations evs) \<and>
           (\<forall>j \<in> set (invocations evs). \<exists>c s. files w' (job_output j) = Some (XYZ c s)) \<and>
           (\<forall>m c. output_filename m c distance_4 angle_0
                    \<noteq> output_filename m c distance_4 angle_90)"
proof -
  from main_completes[OF assms] obtain evs w' where run: "main w = (evs, w', Inr ())"
    by blast
  from main_faithful[OF run]
  have shape: "map erase evs = main_events w"
    and stored: "w' = replay w evs"
    and ok: "succeeded w evs"
    unfolding faithful_def by simp_all
  have inv: "invocations evs = all_jobs (listing w molecules_dir) (listing w clusters_dir)"
    using invocations_erase[of evs] shape by (simp add: invocations_main_events)
  have wr: "written evs = map job_output (invocations evs)"
    using written_erase[of evs] shape by (simp add: written_main_events inv)
  have there: "\<exists>c s. files w' (job_output j) = Some (XYZ c s)"
    if "j \<in> set (invocations evs)" for j
  proof -
    from that wr have "job_output j \<in> set (written evs)" by simp
    then obtain c s where "Write (job_output j) c s \<in> set evs" using written_mem by blast
    from succeeded_write_stored[OF ok this] show ?thesis by (simp add: stored)
  qed
  have "output_filename m c distance_4 angle_0 \<noteq> output_filename m c distance_4 angle_90"
    for m c
    by (simp add: output_filename_def Let_def angle_0_def angle_90_def)
  with run inv wr there show ?thesis by blast
qed

theorem two_jobs_per_accepted_pair_witness:
  "ready example_world \<and>
   (\<exists>evs w'. main example_world = (evs, w', Inr ()) \<and>
      invocations evs
        = [(''water.xyz'', ''Ar2.xyz'', distance_4, angle_0, axis_x),
           (''water.xyz'', ''Ar2.xyz'', distance_4, angle_90, axis_z)] \<and>
      written evs = [''water_Ar2_D4.0_A0.0.xyz'', ''water_Ar2_D4.0_A90.0.xyz''])"
proof -
  from two_jobs_per_accepted_pair[OF example_world_ready] obtain evs w' where
    "main example_world = (evs, w', Inr ())"
    "invocations evs
       = all_jobs (listing example_world molecules_dir) (listing example_world clusters_dir)"
    "written evs = map job_output (invocations evs)"
    by blast
  then have "main example_world = (evs, w', Inr ()) \<and>
      invocations evs
        = [(''water.xyz'', ''Ar2.xyz'', distance_4, angle_0, axis_x),
           (''water.xyz'', ''Ar2.xyz'', distance_4, angle_90, axis_z)] \<and>
      written evs = [''water_Ar2_D4.0_A0.0.xyz'', ''water_Ar2_D4.0_A90.0.xyz'']"
    by (simp add: example_jobs example_names)
  with example_world_ready show ?thesis by blast
qed

text \<open>
  C3. The run lists the paths \<^verbatim>\<open>molecules\<close> (once, first) and \<^verbatim>\<open>clusters\<close> (once for every
  accepted molecule file) and no other; every job reads \<^verbatim>\<open>../molecules/<file>\<close> and then
  \<^verbatim>\<open>../clusters/<file>\<close> for the names it got from those listings, and nothing else is
  read. The paths are literals of the script: the run has no argument but the world.
\<close>

theorem listing_and_read_paths:
  assumes "main w = (evs, w', r)"
  shows "prefix (listed evs)
           (''molecules'' # map (\<lambda>m. ''clusters'') (xyz_names (listing w ''molecules''))) \<and>
         hd (listed evs) = ''molecules'' \<and>
         prefix (read_paths evs)
           (concat (map job_reads (all_jobs (listing w ''molecules'') (listing w ''clusters'')))) \<and>
         (r = Inr () \<longrightarrow>
            listed evs
              = ''molecules'' # map (\<lambda>m. ''clusters'') (xyz_names (listing w ''molecules'')) \<and>
            read_paths evs
              = concat (map job_reads
                  (all_jobs (listing w ''molecules'') (listing w ''clusters''))))"
proof -
  from main_faithful[OF assms]
  have pre: "prefix (map erase evs) (main_events w)"
    and full: "r = Inr () \<Longrightarrow> map erase evs = main_events w"
    unfolding faithful_def by simp_all
  have l: "prefix (listed evs) (listed (main_events w))"
    using prefix_listed[OF pre] by (simp add: listed_erase)
  have rd: "prefix (read_paths evs) (read_paths (main_events w))"
    using prefix_read_paths[OF pre] by (simp add: read_paths_erase)
  have first: "hd (listed evs) = ''molecules''"
    using main_first_event[OF assms] by (auto simp: molecules_dir_def)
  have l': "listed evs = listed (main_events w)" if "r = Inr ()"
    using full[OF that] listed_erase[of evs] by simp
  have rd': "read_paths evs = read_paths (main_events w)" if "r = Inr ()"
    using full[OF that] read_paths_erase[of evs] by simp
  from l rd first l' rd' show ?thesis
    by (simp add: listed_main_events read_paths_main_events molecules_dir_def
        clusters_dir_def)
qed

theorem listing_and_read_paths_witness:
  "\<exists>evs w'. main example_world = (evs, w', Inr ()) \<and>
     listed evs = [''molecules'', ''clusters''] \<and>
     read_paths evs
       = [''../molecules/water.xyz'', ''../clusters/Ar2.xyz'',
          ''../molecules/water.xyz'', ''../clusters/Ar2.xyz'']"
proof -
  from main_example_world obtain evs w' where run: "main example_world = (evs, w', Inr ())"
    by blast
  have names: "xyz_names (listing example_world ''molecules'') = [''water.xyz'']"
    by (simp add: xyz_names_def listing_def example_world_def endswith_def)
  have jobs: "all_jobs (listing example_world ''molecules'') (listing example_world ''clusters'')
      = [(''water.xyz'', ''Ar2.xyz'', distance_4, angle_0, axis_x),
         (''water.xyz'', ''Ar2.xyz'', distance_4, angle_90, axis_z)]"
    using example_jobs by (simp add: molecules_dir_def clusters_dir_def)
  from listing_and_read_paths[OF run]
  have "listed evs = [''molecules'', ''clusters''] \<and>
     read_paths evs
       = [''../molecules/water.xyz'', ''../clusters/Ar2.xyz'',
          ''../molecules/water.xyz'', ''../clusters/Ar2.xyz'']"
    unfolding names jobs by simp
  with run show ?thesis by blast
qed

text \<open>
  C4. A job that runs to its end has read a monomer M and a cluster C, and reading back
  the file it wrote gives a structure with as many atoms as M and C together.
\<close>

theorem written_file_has_all_atoms:
  assumes "make_dimer_xyz m c d a x w = (evs, w', Inr u)"
  shows "\<exists>M C D.
           snd (snd (read (''../molecules/'' @ m) w)) = Inr M \<and>
           snd (snd (read (''../clusters/'' @ c) w)) = Inr C \<and>
           snd (snd (read (output_filename m c d a) w')) = Inr D \<and>
           length D = length M + length C"
proof -
  from make_dimer_xyz_returns[OF assms] obtain cm M cc C dimer where
    M: "files w (''../molecules/'' @ m) = Some (XYZ cm M)" and
    C: "files w (''../clusters/'' @ c) = Some (XYZ cc C)" and
    D: "combine M C d a x = Inr dimer" and
    w': "w' = w\<lparr>files := (files w)(output_filename m c d a \<mapsto>
                                    XYZ (comment_line m c d a x) dimer)\<rparr>"
    by blast
  from D have "length dimer = length M + length C"
    by (simp add: combine_Inr length_center length_translate length_rotated)
  moreover have "snd (snd (read (output_filename m c d a) w')) = Inr dimer"
    by (simp add: read_def w')
  ultimately show ?thesis using M C by (auto simp: read_def)
qed

theorem written_file_has_all_atoms_witness:
  "\<exists>evs w' D.
     make_dimer_xyz ''water.xyz'' ''Ar2.xyz'' distance_4 angle_0 axis_x example_world
       = (evs, w', Inr ()) \<and>
     snd (snd (read ''water_Ar2_D4.0_A0.0.xyz'' w')) = Inr D \<and> length D = 5"
proof -
  from example_job obtain evs w' where run:
    "make_dimer_xyz ''water.xyz'' ''Ar2.xyz'' distance_4 angle_0 axis_x example_world
       = (evs, w', Inr ())"
    by blast
  have M: "snd (snd (read (''../molecules/'' @ ''water.xyz'') example_world)) = Inr water"
    by (simp add: read_def example_world_def)
  have C: "snd (snd (read (''../clusters/'' @ ''Ar2.xyz'') example_world)) = Inr Ar2"
    by (simp add: read_def example_world_def)
  have n: "length water + length Ar2 = 5" by (simp add: water_def Ar2_def)
  from written_file_has_all_atoms[OF run] obtain M' C' D where
    "snd (snd (read (''../molecules/'' @ ''water.xyz'') example_world)) = Inr M'"
    "snd (snd (read (''../clusters/'' @ ''Ar2.xyz'') example_world)) = Inr C'"
    "snd (snd (read (output_filename ''water.xyz'' ''Ar2.xyz'' distance_4 angle_0) w')) = Inr D"
    "length D = length M' + length C'"
    by blast
  with M C n have "snd (snd (read ''water_Ar2_D4.0_A0.0.xyz'' w')) = Inr D \<and> length D = 5"
    by (simp add: example_names)
  with run show ?thesis by blast
qed

text \<open>
  C8, amended. No failure of a listing, a read or a write is caught and no call is made
  again: in every run a call raises if and only if it is the last call of the run and
  the run ends with an exception, which is then the exception of that call; the calls
  made are a prefix of those of a run without failure. Nothing is rolled back: the world
  the run leaves is the world of the start with the effect of every call made, every
  file written before the last call is in place before it, and the last call leaves
  every file as it was, but for the target of a write that fails in its writer, which is
  left truncated, also when an earlier job wrote it.
\<close>

theorem failure_ends_the_run_at_once:
  assumes "main w = (evs, w', r)"
  shows "(\<forall>pre ev post. evs = pre @ ev # post \<longrightarrow>
            (fails (replay w pre) ev \<longleftrightarrow> post = [] \<and> r \<noteq> Inr ())) \<and>
         (\<forall>e. r = Inl e \<longrightarrow> evs \<noteq> [] \<and> raises (replay w (butlast evs)) (last evs) e) \<and>
         prefix (map erase evs) (main_events w) \<and>
         w' = replay w evs \<and>
         (\<forall>p c s. Write p c s \<in> set (butlast evs) \<longrightarrow>
            writable w p c \<and> (\<exists>c' s'. files (replay w (butlast evs)) p = Some (XYZ c' s'))) \<and>
         (\<forall>p. files w' p = files (replay w (butlast evs)) p \<or>
              (\<exists>c s. last evs = Write p c s \<and>
                 (r = Inr () \<and> files w' p = Some (XYZ c s) \<or>
                  r \<noteq> Inr () \<and> writing w p c = WriterFails \<and> files w' p = Some Unparsable)))"
proof -
  from main_faithful[OF assms]
  have left: "w' = replay w evs"
    and pre: "prefix (map erase evs) (main_events w)"
    and ends: "case r of Inr u \<Rightarrow> succeeded w evs
       | Inl e \<Rightarrow> evs \<noteq> [] \<and> succeeded w (butlast evs) \<and>
                  raises (replay w (butlast evs)) (last evs) e"
    unfolding faithful_def by (simp_all split: sum.splits)
  from main_first_event[OF assms] have ne: "evs \<noteq> []" by auto
  then have snoc: "evs = butlast evs @ [last evs]" by simp
  have before: "succeeded w (butlast evs)"
    using ends succeeded_butlast by (cases r) auto
  have one: "fails (replay w pre') ev \<longleftrightarrow> post = [] \<and> r \<noteq> Inr ()"
    if split: "evs = pre' @ ev # post" for pre' ev post
  proof (cases "post = []")
    case True
    with split ne have l: "ev = last evs" and b: "pre' = butlast evs" by simp_all
    show ?thesis
    proof (cases r)
      case (Inl e)
      with ends have "raises (replay w (butlast evs)) (last evs) e" by simp
      then have "fails (replay w (butlast evs)) (last evs)" by (rule raises_fails)
      with True Inl l b show ?thesis by simp
    next
      case (Inr u)
      with ends have "succeeded w evs" by simp
      from succeeded_at[OF this split] Inr True show ?thesis by simp
    qed
  next
    case False
    with split have "butlast evs = pre' @ ev # butlast post" by (simp add: butlast_append)
    from succeeded_at[OF before this] False show ?thesis by simp
  qed
  have two: "evs \<noteq> [] \<and> raises (replay w (butlast evs)) (last evs) e" if "r = Inl e" for e
    using ends that by simp
  have three: "writable w p c \<and> (\<exists>c' s'. files (replay w (butlast evs)) p = Some (XYZ c' s'))"
    if mem: "Write p c s \<in> set (butlast evs)" for p c s
  proof -
    from mem obtain pre' post where "butlast evs = pre' @ Write p c s # post"
      by (auto simp: in_set_conv_decomp)
    from succeeded_at[OF before this] have "writable w p c"
      by (simp add: writable_def writing_replay)
    with succeeded_write_stored[OF before mem] show ?thesis by simp
  qed
  have four: "files w' p = files (replay w (butlast evs)) p \<or>
      (\<exists>c s. last evs = Write p c s \<and>
         (r = Inr () \<and> files w' p = Some (XYZ c s) \<or>
          r \<noteq> Inr () \<and> writing w p c = WriterFails \<and> files w' p = Some Unparsable))" for p
  proof -
    let ?b = "replay w (butlast evs)"
    have w': "w' = effect ?b (last evs)"
      using left snoc replay_append[of w "butlast evs" "[last evs]"] by simp
    from one[OF snoc] have f: "fails ?b (last evs) \<longleftrightarrow> r \<noteq> Inr ()" by simp
    from last_effect_on_files[of ?b "last evs" p]
    show ?thesis
    proof (elim disjE exE conjE)
      assume "files (effect ?b (last evs)) p = files ?b p"
      then show ?thesis by (simp add: w')
    next
      fix c s
      assume l: "last evs = Write p c s" and ok: "writing ?b p c = Written"
        and st: "files (effect ?b (last evs)) p = Some (XYZ c s)"
      from l ok have "\<not> fails ?b (last evs)" by simp
      with f have "r = Inr ()" by simp
      with l st show ?thesis by (auto simp: w')
    next
      fix c s
      assume l: "last evs = Write p c s" and bad: "writing ?b p c = WriterFails"
        and st: "files (effect ?b (last evs)) p = Some Unparsable"
      from l bad have "fails ?b (last evs)" by simp
      with f have "r \<noteq> Inr ()" by simp
      moreover from bad have "writing w p c = WriterFails" by (simp add: writing_replay)
      ultimately show ?thesis using l st by (auto simp: w')
    qed
  qed
  from one two pre left three four show ?thesis by blast
qed

theorem failure_ends_the_run_at_once_witness:
  "(\<exists>evs w'.
      main failing_world = (evs, w', Inl (ParseError ''../clusters/bad.xyz'')) \<and>
      last evs = Read ''../clusters/bad.xyz'' \<and>
      fails (replay failing_world (butlast evs)) (Read ''../clusters/bad.xyz'') \<and>
      (\<exists>c s. files w' ''water_Ar2_D4.0_A0.0.xyz'' = Some (XYZ c s))) \<and>
   (\<exists>evs w'. main example_world = (evs, w', Inr ()) \<and> w' = replay example_world evs)"
proof -
  let ?bad = "''../clusters/bad.xyz''" and ?out = "''water_Ar2_D4.0_A0.0.xyz''"
  from main_failing_world obtain evs w' c s where
    run: "main failing_world = (evs, w', Inl (ParseError ?bad))"
    and l: "last evs = Read ?bad"
    and wr: "Write ?out c s \<in> set (butlast evs)"
    by blast
  note facts = failure_ends_the_run_at_once[OF run]
  from facts have "evs \<noteq> [] \<and>
      raises (replay failing_world (butlast evs)) (last evs) (ParseError ?bad)"
    by blast
  then have f: "fails (replay failing_world (butlast evs)) (Read ?bad)"
    using l raises_fails by metis
  from facts wr obtain c' s' where
    before: "files (replay failing_world (butlast evs)) ?out = Some (XYZ c' s')"
    by blast
  from facts have "files w' ?out = files (replay failing_world (butlast evs)) ?out \<or>
      (\<exists>c s. last evs = Write ?out c s \<and>
         (Inl (ParseError ?bad) = (Inr () :: error + unit) \<and> files w' ?out = Some (XYZ c s) \<or>
          Inl (ParseError ?bad) \<noteq> (Inr () :: error + unit) \<and>
          writing failing_world ?out c = WriterFails \<and> files w' ?out = Some Unparsable))"
    by blast
  with l before have "\<exists>c s. files w' ?out = Some (XYZ c s)" by auto
  with run l f have one: "\<exists>evs w'.
      main failing_world = (evs, w', Inl (ParseError ?bad)) \<and>
      last evs = Read ?bad \<and>
      fails (replay failing_world (butlast evs)) (Read ?bad) \<and>
      (\<exists>c s. files w' ?out = Some (XYZ c s))"
    by blast
  from main_example_world obtain evs2 w2 where
    run2: "main example_world = (evs2, w2, Inr ())" by blast
  from failure_ends_the_run_at_once[OF run2] have "w2 = replay example_world evs2" by blast
  with run2 one show ?thesis by blast
qed

text \<open>
  The claim as written fails where two jobs have one output name and the writer fails
  in the second: the file that the earlier job wrote is truncated by the failing write
  and does not parse after the run.
\<close>

theorem failure_ends_the_run_counterexample:
  "snd (snd (main clash_world)) = Inl (WriteError ''a_b_c_D4.0_A0.0.xyz'') \<and>
   ''a_b_c_D4.0_A0.0.xyz'' \<in> set (written (butlast (fst (main clash_world)))) \<and>
   readable (replay clash_world (butlast (fst (main clash_world)))) ''a_b_c_D4.0_A0.0.xyz'' \<and>
   files (fst (snd (main clash_world))) ''a_b_c_D4.0_A0.0.xyz'' = Some Unparsable"
proof -
  from main_clash_world obtain evs w' where
    run: "main clash_world = (evs, w', Inl (WriteError ''a_b_c_D4.0_A0.0.xyz''))"
    and wr: "''a_b_c_D4.0_A0.0.xyz'' \<in> set (written (butlast evs))"
    and st: "files w' ''a_b_c_D4.0_A0.0.xyz'' = Some Unparsable"
    by blast
  from wr obtain c s where mem: "Write ''a_b_c_D4.0_A0.0.xyz'' c s \<in> set (butlast evs)"
    using written_mem by blast
  from main_faithful[OF run] have "succeeded clash_world (butlast evs)"
    unfolding faithful_def by simp
  from succeeded_write_stored[OF this mem]
  have "readable (replay clash_world (butlast evs)) ''a_b_c_D4.0_A0.0.xyz''"
    by (simp add: readable_def)
  with run wr st show ?thesis by simp
qed

text \<open>
  C9. Jobs are run for pairs of listed names that both end in \<^verbatim>\<open>.xyz\<close>, and for no
  other: every invocation and every read is for such names, a run that completes has
  run exactly those pairs, and with nothing listed in \<^verbatim>\<open>molecules\<close> the run lists that
  directory, writes nothing and ends without an exception.
\<close>

theorem only_xyz_pairs_are_processed:
  assumes "main w = (evs, w', r)"
  shows "prefix (invocations evs)
           (all_jobs (listing w molecules_dir) (listing w clusters_dir)) \<and>
         (\<forall>j \<in> set (invocations evs).
            fst (job_pair j) \<in> set (listing w molecules_dir) \<and>
            snd (job_pair j) \<in> set (listing w clusters_dir) \<and>
            endswith (fst (job_pair j)) ''.xyz'' \<and> endswith (snd (job_pair j)) ''.xyz'') \<and>
         (\<forall>p \<in> set (read_paths evs).
            \<exists>f. endswith f ''.xyz'' \<and> (p = ''../molecules/'' @ f \<or> p = ''../clusters/'' @ f)) \<and>
         (r = Inr () \<longrightarrow>
            job_pair ` set (invocations evs)
              = {m \<in> set (listing w molecules_dir). endswith m ''.xyz''}
                \<times> {c \<in> set (listing w clusters_dir). endswith c ''.xyz''}) \<and>
         (dirs w molecules_dir = Some [] \<longrightarrow>
            evs = [Listdir molecules_dir] \<and> written evs = [] \<and> w' = w \<and> r = Inr ())"
proof -
  let ?ms = "listing w molecules_dir" and ?cs = "listing w clusters_dir"
  from main_faithful[OF assms]
  have pre: "prefix (map erase evs) (main_events w)"
    and full: "r = Inr () \<Longrightarrow> map erase evs = main_events w"
    unfolding faithful_def by simp_all
  have inv: "prefix (invocations evs) (all_jobs ?ms ?cs)"
    using prefix_invocations[OF pre] by (simp add: invocations_erase invocations_main_events)
  have rd: "prefix (read_paths evs) (concat (map job_reads (all_jobs ?ms ?cs)))"
    using prefix_read_paths[OF pre] by (simp add: read_paths_erase read_paths_main_events)
  have jobs: "fst (job_pair j) \<in> set ?ms \<and> snd (job_pair j) \<in> set ?cs \<and>
        endswith (fst (job_pair j)) ''.xyz'' \<and> endswith (snd (job_pair j)) ''.xyz''"
    if "j \<in> set (invocations evs)" for j
    using set_mono_prefix[OF inv] that all_jobs_accepted[of j ?ms ?cs] by blast
  have reads: "\<exists>f. endswith f ''.xyz'' \<and> (p = ''../molecules/'' @ f \<or> p = ''../clusters/'' @ f)"
    if "p \<in> set (read_paths evs)" for p
    using set_mono_prefix[OF rd] that job_reads_accepted[of p ?ms ?cs] by blast
  have pairs: "job_pair ` set (invocations evs)
      = {m \<in> set ?ms. endswith m ''.xyz''} \<times> {c \<in> set ?cs. endswith c ''.xyz''}"
    if "r = Inr ()"
  proof -
    have "invocations evs = all_jobs ?ms ?cs"
      using full[OF that] invocations_erase[of evs] by (simp add: invocations_main_events)
    then show ?thesis by (simp add: all_jobs_pairs xyz_names_def)
  qed
  have none: "evs = [Listdir molecules_dir] \<and> written evs = [] \<and> w' = w \<and> r = Inr ()"
    if "dirs w molecules_dir = Some []"
    using main_empty_listing[OF that] assms by simp
  from inv jobs reads pairs none show ?thesis by blast
qed

theorem only_xyz_pairs_are_processed_witness:
  "(\<exists>evs w'. main example_world = (evs, w', Inr ()) \<and>
      job_pair ` set (invocations evs) = {(''water.xyz'', ''Ar2.xyz'')}) \<and>
   dirs empty_world molecules_dir = Some [] \<and>
   main empty_world = ([Listdir molecules_dir], empty_world, Inr ())"
proof -
  from main_example_world obtain evs w' where run: "main example_world = (evs, w', Inr ())"
    by blast
  have sets: "{m \<in> set (listing example_world molecules_dir). endswith m ''.xyz''}
      \<times> {c \<in> set (listing example_world clusters_dir). endswith c ''.xyz''}
      = {(''water.xyz'', ''Ar2.xyz'')}"
    by (auto simp: listing_def example_world_def molecules_dir_def clusters_dir_def
        endswith_def)
  from only_xyz_pairs_are_processed[OF run]
  have "job_pair ` set (invocations evs) = {(''water.xyz'', ''Ar2.xyz'')}"
    unfolding sets by blast
  with run have one: "\<exists>evs w'. main example_world = (evs, w', Inr ()) \<and>
      job_pair ` set (invocations evs) = {(''water.xyz'', ''Ar2.xyz'')}"
    by blast
  have unlisted: "dirs empty_world molecules_dir = Some []"
    by (simp add: empty_world_def molecules_dir_def)
  obtain evs0 w0 r0 where run0: "main empty_world = (evs0, w0, r0)"
    by (cases "main empty_world") auto
  from only_xyz_pairs_are_processed[OF run0]
  have imp: "dirs empty_world molecules_dir = Some [] \<longrightarrow>
      evs0 = [Listdir molecules_dir] \<and> written evs0 = [] \<and> w0 = empty_world \<and> r0 = Inr ()"
    by (elim conjE)
  from mp[OF imp unlisted] run0
  have "main empty_world = ([Listdir molecules_dir], empty_world, Inr ())" by simp
  with one unlisted show ?thesis by (intro conjI)
qed

end
